theory Spec2Isabelle
  imports Main "HOL-Library.Product_Lexorder"
begin

section \<open>Calendar values\<close>

text \<open>
  The program handles months as Go \<open>time.Time\<close> values. Every such value it builds comes
  from \<open>time.Parse\<close> with the layout \<open>01-2006\<close> or from a \<open>DATE\<close> column, so it is a
  calendar date at midnight UTC; the model keeps the three calendar fields. \<open>Year()\<close> is a
  Go \<open>int\<close> whose range the time package bounds far below overflow of \<open>y*12 + m + 1\<close>,
  so years and month counts are unbounded integers here. \<open>time.Month\<close> is the enumeration
  January .. December with values 1 .. 12.
\<close>

datatype Month = January | February | March | April | May | June
  | July | August | September | October | November | December

fun month_int :: "Month \<Rightarrow> int" where
  "month_int January = 1"
| "month_int February = 2"
| "month_int March = 3"
| "month_int April = 4"
| "month_int May = 5"
| "month_int June = 6"
| "month_int July = 7"
| "month_int August = 8"
| "month_int September = 9"
| "month_int October = 10"
| "month_int November = 11"
| "month_int December = 12"

record Time =
  Year :: int
  Month :: Month
  Day :: int

text \<open>\<open>t.After(u)\<close> and \<open>t.Before(u)\<close> compare instants: the full date, day included.\<close>

definition After :: "Time \<Rightarrow> Time \<Rightarrow> bool" where
  "After t u =
     (Year u < Year t \<or>
      (Year t = Year u \<and>
         (month_int (Month u) < month_int (Month t) \<or>
          (Month t = Month u \<and> Day u < Day t))))"

definition Before :: "Time \<Rightarrow> Time \<Rightarrow> bool" where
  "Before t u =
     (Year t < Year u \<or>
      (Year t = Year u \<and>
         (month_int (Month t) < month_int (Month u) \<or>
          (Month t = Month u \<and> Day t < Day u))))"

section \<open>Month arithmetic of the summary\<close>

definition maxTime :: "Time \<Rightarrow> Time \<Rightarrow> Time" where
  "maxTime a b = (if After a b then a else b)"

definition monthsBetween :: "Time \<Rightarrow> Time \<Rightarrow> int" where
  "monthsBetween start endt =
     (let y = Year endt - Year start;
          m = month_int (Month endt) - month_int (Month start);
          months = y * 12 + m + 1
      in if months < 0 then 0 else months)"

section \<open>Domain model\<close>

text \<open>
  A \<open>uuid.UUID\<close> is a Go string. The input and filter structs repeat field names of
  \<open>Subscription\<close>; their fields carry a prefix here (\<open>New\<close>, \<open>Set\<close>, \<open>By\<close>, \<open>For\<close>). A Go
  pointer field that may be nil is an \<open>option\<close>.
\<close>

type_synonym UUID = string

record Subscription =
  ID :: UUID
  ServiceName :: string
  Price :: int
  UserID :: UUID
  StartMonth :: Time
  EndMonth :: "Time option"

record CreateInput =
  NewServiceName :: string
  NewPrice :: int
  NewUserID :: UUID
  NewStartMonth :: Time
  NewEndMonth :: "Time option"

record UpdateInput =
  SetServiceName :: string
  SetPrice :: int
  SetStartMonth :: Time
  SetEndMonth :: "Time option"

record ListFilter =
  ByUserID :: "UUID option"
  ByServiceName :: "string option"
  StartMonthFrom :: "Time option"
  StartMonthTo :: "Time option"
  ActivePeriodFrom :: "Time option"
  ActivePeriodTo :: "Time option"
  Limit :: int
  Offset :: int

record SummaryFilter =
  ForUserID :: "UUID option"
  ForServiceName :: "string option"
  PeriodStart :: Time
  PeriodEnd :: Time

text \<open>
  Go errors as values: the two sentinels of the repository, \<open>sql.ErrNoRows\<close>, an error
  reported by the database driver, and \<open>fmt.Errorf("%s: %w", op, err)\<close>.
\<close>

datatype error =
  ErrNotFound
| ErrInvalidUUID
| ErrNoRows
| DriverError string
| Wrapped string error

fun errors_Is :: "error \<Rightarrow> error \<Rightarrow> bool" where
  "errors_Is (Wrapped op inner) target =
     (Wrapped op inner = target \<or> errors_Is inner target)"
| "errors_Is err target = (err = target)"

text \<open>
  Go's \<open>int\<close> is 64 bits wide on the platforms the image is built for, and \<open>+\<close> and \<open>*\<close>
  wrap around in two's complement. \<open>int64 x\<close> is the value a Go \<open>int\<close> holds after a
  computation whose exact result is \<open>x\<close>.
\<close>

definition int64 :: "int \<Rightarrow> int" where
  "int64 x = (x + 2 ^ 63) mod 2 ^ 64 - 2 ^ 63"

section \<open>The subscription service\<close>

text \<open>
  The service depends on the \<open>Repository\<close> interface only. A repository method reads and
  changes a store of some type \<open>'s\<close> and returns a result or an error. The service's log
  calls change no result and are left out.
\<close>

record 's Repository =
  CreateSubscription :: "CreateInput \<Rightarrow> 's \<Rightarrow> (error + Subscription) \<times> 's"
  GetSubscription :: "UUID \<Rightarrow> 's \<Rightarrow> (error + Subscription) \<times> 's"
  UpdateSubscription :: "UUID \<Rightarrow> UpdateInput \<Rightarrow> 's \<Rightarrow> (error + Subscription) \<times> 's"
  DeleteSubscription :: "UUID \<Rightarrow> 's \<Rightarrow> (error + unit) \<times> 's"
  ListSubscriptions :: "ListFilter \<Rightarrow> 's \<Rightarrow> (error + Subscription list) \<times> 's"

definition Service_Create ::
  "'s Repository \<Rightarrow> CreateInput \<Rightarrow> 's \<Rightarrow> (error + Subscription) \<times> 's" where
  "Service_Create repo input st =
     (case CreateSubscription repo input st of
        (Inl err, st') \<Rightarrow> (Inl err, st')
      | (Inr sub, st') \<Rightarrow> (Inr sub, st'))"

definition Service_Get ::
  "'s Repository \<Rightarrow> UUID \<Rightarrow> 's \<Rightarrow> (error + Subscription) \<times> 's" where
  "Service_Get repo sid st =
     (case GetSubscription repo sid st of
        (Inl err, st') \<Rightarrow> (Inl err, st')
      | (Inr sub, st') \<Rightarrow> (Inr sub, st'))"

definition Service_Update ::
  "'s Repository \<Rightarrow> UUID \<Rightarrow> UpdateInput \<Rightarrow> 's \<Rightarrow> (error + Subscription) \<times> 's" where
  "Service_Update repo sid input st =
     (case UpdateSubscription repo sid input st of
        (Inl err, st') \<Rightarrow> (Inl err, st')
      | (Inr sub, st') \<Rightarrow> (Inr sub, st'))"

definition Service_Delete ::
  "'s Repository \<Rightarrow> UUID \<Rightarrow> 's \<Rightarrow> (error + unit) \<times> 's" where
  "Service_Delete repo sid st =
     (case DeleteSubscription repo sid st of
        (Inl err, st') \<Rightarrow> (Inl err, st')
      | (Inr u, st') \<Rightarrow> (Inr (), st'))"

definition Service_List ::
  "'s Repository \<Rightarrow> ListFilter \<Rightarrow> 's \<Rightarrow> (error + Subscription list) \<times> 's" where
  "Service_List repo flt st =
     (case ListSubscriptions repo flt st of
        (Inl err, st') \<Rightarrow> (Inl err, st')
      | (Inr subs, st') \<Rightarrow> (Inr subs, st'))"

text \<open>The \<open>for\<close> loop of \<open>Sum\<close>, with the running total as an argument.\<close>

fun sum_loop :: "SummaryFilter \<Rightarrow> Subscription list \<Rightarrow> int \<Rightarrow> int" where
  "sum_loop input [] tot = tot"
| "sum_loop input (sub # subs) tot =
     (let overlapStart = maxTime (StartMonth sub) (PeriodStart input);
          subEnd = (case EndMonth sub of
                      Some e \<Rightarrow> if Before e (PeriodEnd input) then e else PeriodEnd input
                    | None \<Rightarrow> PeriodEnd input)
      in if After overlapStart subEnd then sum_loop input subs tot
         else let months = monthsBetween overlapStart subEnd
              in sum_loop input subs (int64 (tot + int64 (Price sub * months))))"

definition summary_listFilter :: "SummaryFilter \<Rightarrow> ListFilter" where
  "summary_listFilter input =
     \<lparr>ByUserID = ForUserID input, ByServiceName = ForServiceName input,
      StartMonthFrom = None, StartMonthTo = None,
      ActivePeriodFrom = Some (PeriodStart input), ActivePeriodTo = Some (PeriodEnd input),
      Limit = 0, Offset = 0\<rparr>"

definition Service_Sum ::
  "'s Repository \<Rightarrow> SummaryFilter \<Rightarrow> 's \<Rightarrow> (error + int) \<times> 's" where
  "Service_Sum repo input st =
     (case ListSubscriptions repo (summary_listFilter input) st of
        (Inl err, st') \<Rightarrow> (Inl err, st')
      | (Inr subs, st') \<Rightarrow> (Inr (sum_loop input subs 0), st'))"

text \<open>What one iteration of the loop computes for a candidate.\<close>

definition overlapStart_of :: "SummaryFilter \<Rightarrow> Subscription \<Rightarrow> Time" where
  "overlapStart_of input sub = maxTime (StartMonth sub) (PeriodStart input)"

definition subEnd_of :: "SummaryFilter \<Rightarrow> Subscription \<Rightarrow> Time" where
  "subEnd_of input sub =
     (case EndMonth sub of
        Some e \<Rightarrow> if Before e (PeriodEnd input) then e else PeriodEnd input
      | None \<Rightarrow> PeriodEnd input)"

definition skipped :: "SummaryFilter \<Rightarrow> Subscription \<Rightarrow> bool" where
  "skipped input sub = After (overlapStart_of input sub) (subEnd_of input sub)"

definition months_of :: "SummaryFilter \<Rightarrow> Subscription \<Rightarrow> int" where
  "months_of input sub = monthsBetween (overlapStart_of input sub) (subEnd_of input sub)"

text \<open>
  Two repositories for running the service on given data: one answers every list call
  with a fixed candidate list, the other fails every call with a fixed error.
\<close>

definition listing_repo :: "Subscription list \<Rightarrow> unit Repository" where
  "listing_repo subs =
     \<lparr>CreateSubscription = (\<lambda>input st. (Inl ErrNotFound, st)),
      GetSubscription = (\<lambda>sid st. (Inl ErrNotFound, st)),
      UpdateSubscription = (\<lambda>sid input st. (Inl ErrNotFound, st)),
      DeleteSubscription = (\<lambda>sid st. (Inl ErrNotFound, st)),
      ListSubscriptions = (\<lambda>flt st. (Inr subs, st))\<rparr>"

definition failing_repo :: "error \<Rightarrow> unit Repository" where
  "failing_repo err =
     \<lparr>CreateSubscription = (\<lambda>input st. (Inl err, st)),
      GetSubscription = (\<lambda>sid st. (Inl err, st)),
      UpdateSubscription = (\<lambda>sid input st. (Inl err, st)),
      DeleteSubscription = (\<lambda>sid st. (Inl err, st)),
      ListSubscriptions = (\<lambda>flt st. (Inl err, st))\<rparr>"

text \<open>
  What the loop adds up when no product and no addition leaves the range of a Go \<open>int\<close>:
  a candidate that is skipped adds nothing, any other its price times its month count.
\<close>

definition exact_contribution :: "SummaryFilter \<Rightarrow> Subscription \<Rightarrow> int" where
  "exact_contribution input sub =
     (if skipped input sub then 0 else Price sub * months_of input sub)"

definition exact_total :: "SummaryFilter \<Rightarrow> Subscription list \<Rightarrow> int" where
  "exact_total input subs = sum_list (map (exact_contribution input) subs)"

section \<open>The summary as the specification words it\<close>

text \<open>
  The specification computes with month values: a year and a month, the day of the month
  not compared. \<open>month_value\<close> numbers the calendar months, so \<open>max\<close>, \<open><\<close> and \<open>>\<close> between
  month values are those of their numbers. Over exact integers:
  \<open>overlapStart = max(startMonth, periodStart)\<close>; \<open>effectiveEnd\<close> is \<open>endMonth\<close> when that is
  set and before \<open>periodEnd\<close>, else \<open>periodEnd\<close>; a candidate with \<open>overlapStart >
  effectiveEnd\<close> contributes 0, any other \<open>price * monthsOverlap\<close>, where \<open>monthsOverlap =
  (effectiveEnd.year - overlapStart.year) * 12 + (effectiveEnd.month - overlapStart.month)
  + 1\<close>; the total is the sum of the contributions.
\<close>

definition month_value :: "Time \<Rightarrow> int" where
  "month_value t = Year t * 12 + month_int (Month t)"

definition spec_overlapStart :: "SummaryFilter \<Rightarrow> Subscription \<Rightarrow> Time" where
  "spec_overlapStart f s =
     (if month_value (StartMonth s) < month_value (PeriodStart f) then PeriodStart f
      else StartMonth s)"

definition spec_effectiveEnd :: "SummaryFilter \<Rightarrow> Subscription \<Rightarrow> Time" where
  "spec_effectiveEnd f s =
     (if EndMonth s \<noteq> None \<and> month_value (the (EndMonth s)) < month_value (PeriodEnd f)
      then the (EndMonth s) else PeriodEnd f)"

definition spec_monthsOverlap :: "SummaryFilter \<Rightarrow> Subscription \<Rightarrow> int" where
  "spec_monthsOverlap f s =
     (Year (spec_effectiveEnd f s) - Year (spec_overlapStart f s)) * 12
     + (month_int (Month (spec_effectiveEnd f s)) - month_int (Month (spec_overlapStart f s)))
     + 1"

definition spec_contribution :: "SummaryFilter \<Rightarrow> Subscription \<Rightarrow> int" where
  "spec_contribution f s =
     (if month_value (spec_effectiveEnd f s) < month_value (spec_overlapStart f s) then 0
      else Price s * spec_monthsOverlap f s)"

definition spec_total :: "SummaryFilter \<Rightarrow> Subscription list \<Rightarrow> int" where
  "spec_total f subs = sum_list (map (spec_contribution f) subs)"

text \<open>Month granularity: dates of one calendar month, and inputs that differ in days only.\<close>

definition same_month :: "Time \<Rightarrow> Time \<Rightarrow> bool" where
  "same_month a b = (Year a = Year b \<and> Month a = Month b)"

definition same_months_sub :: "Subscription \<Rightarrow> Subscription \<Rightarrow> bool" where
  "same_months_sub s s' =
     (ID s = ID s' \<and> ServiceName s = ServiceName s' \<and> Price s = Price s' \<and>
      UserID s = UserID s' \<and> same_month (StartMonth s) (StartMonth s') \<and>
      rel_option same_month (EndMonth s) (EndMonth s'))"

definition same_months_filter :: "SummaryFilter \<Rightarrow> SummaryFilter \<Rightarrow> bool" where
  "same_months_filter f f' =
     (ForUserID f = ForUserID f' \<and> ForServiceName f = ForServiceName f' \<and>
      same_month (PeriodStart f) (PeriodStart f') \<and> same_month (PeriodEnd f) (PeriodEnd f'))"

definition sub_on_day :: "int \<Rightarrow> Subscription \<Rightarrow> bool" where
  "sub_on_day d s =
     (Day (StartMonth s) = d \<and> (case EndMonth s of None \<Rightarrow> True | Some e \<Rightarrow> Day e = d))"

definition filter_on_day :: "int \<Rightarrow> SummaryFilter \<Rightarrow> bool" where
  "filter_on_day d f = (Day (PeriodStart f) = d \<and> Day (PeriodEnd f) = d)"

section \<open>Identifiers (package uuid)\<close>

text \<open>
  A Go string is a sequence of bytes, here a \<open>string\<close>; \<open>len\<close> counts bytes. A \<open>for ...
  range\<close> loop over a string decodes UTF-8: it yields the byte index at which each rune
  starts and the rune, and a byte that starts no valid encoding yields \<open>RuneError\<close> with
  width 1. Runes and bytes are natural numbers. \<open>DecodeRune\<close> and \<open>EncodeRune\<close> follow
  package \<open>utf8\<close>. The range tables of package \<open>unicode\<close> (\<open>unicode.Digit\<close> and the
  lower-case mapping of \<open>unicode.CaseRanges\<close>) are not part of the repository: they are
  parameters of the model, consulted as \<open>unicode.IsDigit\<close> and \<open>unicode.ToLower\<close> consult
  them, beyond Latin-1 and beyond ASCII.
\<close>

definition RuneError :: nat where
  "RuneError = 0xFFFD"

definition rune_size :: "nat \<Rightarrow> nat" where
  "rune_size s0 =
     (if s0 < 0x80 then 1 else if s0 < 0xC2 then 0 else if s0 < 0xE0 then 2
      else if s0 < 0xF0 then 3 else if s0 < 0xF5 then 4 else 0)"

definition accept_lo :: "nat \<Rightarrow> nat" where
  "accept_lo s0 = (if s0 = 0xE0 then 0xA0 else if s0 = 0xF0 then 0x90 else 0x80)"

definition accept_hi :: "nat \<Rightarrow> nat" where
  "accept_hi s0 = (if s0 = 0xED then 0x9F else if s0 = 0xF4 then 0x8F else 0xBF)"

definition continuation :: "nat \<Rightarrow> bool" where
  "continuation b = (0x80 \<le> b \<and> b \<le> 0xBF)"

definition DecodeRune :: "nat list \<Rightarrow> nat \<times> nat" where
  "DecodeRune bs =
     (case bs of
        [] \<Rightarrow> (RuneError, 0)
      | s0 # rest \<Rightarrow>
          if s0 < 0x80 then (s0, 1)
          else
            let sz = rune_size s0 in
            if sz = 0 \<or> length bs < sz then (RuneError, 1)
            else
              let s1 = bs ! 1 in
              if s1 < accept_lo s0 \<or> accept_hi s0 < s1 then (RuneError, 1)
              else if sz \<le> 2 then ((s0 mod 32) * 64 + s1 mod 64, 2)
              else
                let s2 = bs ! 2 in
                if \<not> continuation s2 then (RuneError, 1)
                else if sz \<le> 3
                then ((s0 mod 16) * 4096 + (s1 mod 64) * 64 + s2 mod 64, 3)
                else
                  let s3 = bs ! 3 in
                  if \<not> continuation s3 then (RuneError, 1)
                  else ((s0 mod 8) * 262144 + (s1 mod 64) * 4096
                        + (s2 mod 64) * 64 + s3 mod 64, 4))"

text \<open>Every rune of a non-empty string takes at least one byte, so the loop ends.\<close>

lemma DecodeRune_width: "bs \<noteq> [] \<Longrightarrow> 1 \<le> snd (DecodeRune bs)"
  by (cases bs) (simp_all add: DecodeRune_def Let_def)

function range_string :: "nat \<Rightarrow> nat list \<Rightarrow> (nat \<times> nat) list" where
  "range_string i [] = []"
| "range_string i (b # bs) =
     (i, fst (DecodeRune (b # bs)))
     # range_string (i + snd (DecodeRune (b # bs))) (drop (snd (DecodeRune (b # bs))) (b # bs))"
  by pat_completeness auto
termination
proof (relation "measure (\<lambda>(i, bs). length bs)")
  show "wf (measure (\<lambda>(i, bs). length bs))" by simp
next
  fix i :: nat and b :: nat and bs :: "nat list"
  have "1 \<le> snd (DecodeRune (b # bs))"
    by (rule DecodeRune_width) simp
  then show "((i + snd (DecodeRune (b # bs)), drop (snd (DecodeRune (b # bs))) (b # bs)), i, b # bs)
        \<in> measure (\<lambda>(i, bs). length bs)"
    by simp
qed

definition EncodeRune :: "nat \<Rightarrow> nat list" where
  "EncodeRune r =
     (if r < 0x80 then [r]
      else if r < 0x800 then [0xC0 + r div 64, 0x80 + r mod 64]
      else if (0xD800 \<le> r \<and> r \<le> 0xDFFF) \<or> 0x10FFFF < r then [0xEF, 0xBF, 0xBD]
      else if r < 0x10000
      then [0xE0 + r div 4096, 0x80 + (r div 64) mod 64, 0x80 + r mod 64]
      else [0xF0 + r div 262144, 0x80 + (r div 4096) mod 64,
            0x80 + (r div 64) mod 64, 0x80 + r mod 64])"

text \<open>Package \<open>unicode\<close> and \<open>strings.ToLower\<close>.\<close>

record unicode_tables =
  Digit :: "nat \<Rightarrow> bool"
  LowerCase :: "nat \<Rightarrow> nat"

definition unicode_IsDigit :: "unicode_tables \<Rightarrow> nat \<Rightarrow> bool" where
  "unicode_IsDigit tabs r = (if r \<le> 0xFF then 0x30 \<le> r \<and> r \<le> 0x39 else Digit tabs r)"

definition unicode_ToLower :: "unicode_tables \<Rightarrow> nat \<Rightarrow> nat" where
  "unicode_ToLower tabs r =
     (if r \<le> 0x7F then (if 0x41 \<le> r \<and> r \<le> 0x5A then r + 32 else r)
      else LowerCase tabs r)"

text \<open>
  \<open>strings.ToLower\<close>: a string of ASCII bytes is lower-cased byte by byte; any other
  string goes through \<open>strings.Map\<close>, which decodes each rune, maps it and encodes the
  result.
\<close>

definition ascii_lower :: "nat \<Rightarrow> nat" where
  "ascii_lower c = (if 0x41 \<le> c \<and> c \<le> 0x5A then c + 32 else c)"

definition strings_ToLower :: "unicode_tables \<Rightarrow> string \<Rightarrow> string" where
  "strings_ToLower tabs s =
     (let bs = map of_char s in
      if list_all (\<lambda>b. b < 0x80) bs
      then map char_of (map ascii_lower bs)
      else map char_of
             (concat (map (\<lambda>(i, c). EncodeRune (unicode_ToLower tabs c)) (range_string 0 bs))))"

text \<open>\<open>uuid.Parse\<close>; the loop returns at the first rune that fails its test.\<close>

definition isHex :: "unicode_tables \<Rightarrow> nat \<Rightarrow> bool" where
  "isHex tabs r = (unicode_IsDigit tabs r \<or> (0x61 \<le> r \<and> r \<le> 0x66))"

fun parse_loop :: "unicode_tables \<Rightarrow> (nat \<times> nat) list \<Rightarrow> bool" where
  "parse_loop tabs [] = True"
| "parse_loop tabs ((i, r) # rest) =
     (if i = 8 \<or> i = 13 \<or> i = 18 \<or> i = 23
      then (if r \<noteq> 0x2D then False else parse_loop tabs rest)
      else (if \<not> isHex tabs r then False else parse_loop tabs rest))"

definition Parse :: "unicode_tables \<Rightarrow> string \<Rightarrow> error + UUID" where
  "Parse tabs s =
     (if length s \<noteq> 36 then Inl ErrInvalidUUID
      else
        let lower = strings_ToLower tabs s in
        if parse_loop tabs (range_string 0 (map of_char lower)) then Inr lower
        else Inl ErrInvalidUUID)"

definition UUID_String :: "UUID \<Rightarrow> string" where
  "UUID_String u = u"

text \<open>
  The shape the specification gives to an identifier: 36 characters, \<open>-\<close> at the indices
  8, 13, 18 and 23, a hexadecimal digit of either case everywhere else; and the input
  with its ASCII letters in lower case.
\<close>

definition hex_digit :: "char \<Rightarrow> bool" where
  "hex_digit c =
     ((0x30 \<le> (of_char c :: nat) \<and> (of_char c :: nat) \<le> 0x39)
      \<or> (0x61 \<le> (of_char c :: nat) \<and> (of_char c :: nat) \<le> 0x66)
      \<or> (0x41 \<le> (of_char c :: nat) \<and> (of_char c :: nat) \<le> 0x46))"

definition spec_uuid_shape :: "string \<Rightarrow> bool" where
  "spec_uuid_shape s =
     (length s = 36 \<and>
      (\<forall>i < length s. if i = 8 \<or> i = 13 \<or> i = 18 \<or> i = 23 then s ! i = CHR ''-''
                        else hex_digit (s ! i)))"

definition spec_lowercased :: "string \<Rightarrow> string" where
  "spec_lowercased s = map (\<lambda>c. char_of (ascii_lower (of_char c))) s"

text \<open>The test that one iteration of the loop of \<open>Parse\<close> applies.\<close>

definition rune_ok :: "unicode_tables \<Rightarrow> nat \<Rightarrow> nat \<Rightarrow> bool" where
  "rune_ok tabs i r =
     (if i = 8 \<or> i = 13 \<or> i = 18 \<or> i = 23 then r = 0x2D else isHex tabs r)"

text \<open>
  A table excerpt for running \<open>Parse\<close>: the ARABIC-INDIC DIGITS U+0660 .. U+0669, which
  are decimal digits (category Nd) and have no case.
\<close>

definition arabic_indic_tables :: unicode_tables where
  "arabic_indic_tables = \<lparr>Digit = (\<lambda>r. 0x660 \<le> r \<and> r \<le> 0x669), LowerCase = (\<lambda>r. r)\<rparr>"

section \<open>The PostgreSQL repository\<close>

text \<open>
  \<open>Storage\<close> sends SQL statements to PostgreSQL. The model gives each statement the
  meaning it has on the table that the migration declares:
  \<^item> the table is the list of its rows, each as the \<open>Subscription\<close> that \<open>Scan\<close> builds;
  \<^item> \<open>id UUID PRIMARY KEY DEFAULT uuid_generate_v4()\<close>: identifiers come from a generator,
    here a sequence and the number of identifiers taken from it;
  \<^item> \<open>id UUID\<close>, \<open>user_id UUID\<close>: a parameter for such a column is read by the input
    function of type \<open>uuid\<close>, which refuses a text that spells no uuid, and two
    identifiers are equal when they spell the same 128 bits;
  \<^item> \<open>service_name TEXT\<close>: a text parameter with a zero byte or with bytes that are not
    UTF-8 is refused (the driver talks UTF-8 to the server);
  \<^item> \<open>price INT\<close>: a price parameter outside the 32-bit range is refused;
  \<^item> \<open>start_month DATE\<close>, \<open>end_month DATE\<close>: a date parameter before 24 November 4714 BC
    or after the year 5874897 is refused;
  \<^item> the two \<open>CHECK\<close> constraints refuse a row with a negative price or with an end month
    before its start month;
  \<^item> a statement that the driver cannot carry out (\<open>outage\<close>: the connection is lost, the
    context is cancelled) fails with the driver's error and changes nothing.
  A parameter is refused when it is bound, before any row is looked at. \<open>DATE\<close> values
  compare as dates, day included. The order of rows with equal \<open>start_month\<close> under
  \<open>ORDER BY\<close> is not fixed by SQL; the model keeps their table order.
\<close>

record Database =
  subscriptions :: "Subscription list"
  outage :: "string option"
  uuid_generate_v4 :: "nat \<Rightarrow> UUID"
  generated :: nat

subsection \<open>Column types\<close>

text \<open>
  The input function of type \<open>uuid\<close>: an optional opening brace, sixteen bytes of two
  hexadecimal digits each in either case, an optional \<open>-\<close> after every second byte but the
  last, the closing brace if there was an opening one, and nothing more. Its value is
  given as the 32 digits in lower case.
\<close>

definition isxdigit :: "char \<Rightarrow> bool" where
  "isxdigit c =
     ((0x30 \<le> (of_char c :: nat) \<and> (of_char c :: nat) \<le> 0x39)
      \<or> (0x61 \<le> (of_char c :: nat) \<and> (of_char c :: nat) \<le> 0x66)
      \<or> (0x41 \<le> (of_char c :: nat) \<and> (of_char c :: nat) \<le> 0x46))"

definition digit_lower :: "char \<Rightarrow> char" where
  "digit_lower c = char_of (ascii_lower (of_char c))"

fun uuid_pairs :: "nat list \<Rightarrow> string \<Rightarrow> (string \<times> string) option" where
  "uuid_pairs [] src = Some ([], src)"
| "uuid_pairs (i # later) src =
     (case src of
        a # b # rest \<Rightarrow>
          if isxdigit a \<and> isxdigit b
          then (case uuid_pairs later
                       (if odd i \<and> i < 15 \<and> take 1 rest = ''-'' then drop 1 rest else rest) of
                  None \<Rightarrow> None
                | Some (digits, r) \<Rightarrow> Some (digit_lower a # digit_lower b # digits, r))
          else None
      | _ \<Rightarrow> None)"

definition uuid_in :: "string \<Rightarrow> string option" where
  "uuid_in source =
     (let braces = (take 1 source = ''{'');
          src = (if braces then drop 1 source else source)
      in case uuid_pairs [0 ..< 16] src of
           None \<Rightarrow> None
         | Some (digits, r) \<Rightarrow>
             if braces then (if r = ''}'' then Some digits else None)
             else (if r = [] then Some digits else None))"

text \<open>The output function of type \<open>uuid\<close>: the digits in the groups 8-4-4-4-12.\<close>

definition uuid_out :: "string \<Rightarrow> string" where
  "uuid_out digits =
     take 8 digits @ ''-'' @ take 4 (drop 8 digits) @ ''-'' @ take 4 (drop 12 digits)
     @ ''-'' @ take 4 (drop 16 digits) @ ''-'' @ drop 20 digits"

text \<open>An identifier that spells a uuid, and two identifiers that spell the same one.\<close>

definition uuid_text :: "UUID \<Rightarrow> bool" where
  "uuid_text u = (uuid_in u \<noteq> None)"

definition same_uuid :: "UUID \<Rightarrow> UUID \<Rightarrow> bool" where
  "same_uuid u v = (uuid_in u \<noteq> None \<and> uuid_in u = uuid_in v)"

text \<open>\<open>UUID.Value\<close>: the empty identifier is sent as SQL \<open>NULL\<close>.\<close>

definition uuid_Value :: "UUID \<Rightarrow> string option" where
  "uuid_Value u = (if u = [] then None else Some u)"

text \<open>
  A uuid parameter is refused when it is not \<open>NULL\<close> and spells no uuid. \<open>column = $n\<close>:
  a comparison with \<open>NULL\<close> selects no row.
\<close>

definition uuid_refused :: "UUID \<Rightarrow> bool" where
  "uuid_refused u = (case uuid_Value u of None \<Rightarrow> False | Some v \<Rightarrow> uuid_in v = None)"

definition uuid_equals :: "UUID \<Rightarrow> UUID \<Rightarrow> bool" where
  "uuid_equals column u =
     (case uuid_Value u of None \<Rightarrow> False | Some v \<Rightarrow> same_uuid v column)"

definition id_matches :: "UUID \<Rightarrow> Subscription \<Rightarrow> bool" where
  "id_matches sid r = uuid_equals (ID r) sid"

text \<open>Text: no zero byte, and every rune validly encoded.\<close>

function utf8_valid :: "nat list \<Rightarrow> bool" where
  "utf8_valid [] = True"
| "utf8_valid (b # bs) =
     (\<not> (fst (DecodeRune (b # bs)) = RuneError \<and> snd (DecodeRune (b # bs)) = 1)
      \<and> utf8_valid (drop (snd (DecodeRune (b # bs))) (b # bs)))"
  by pat_completeness auto
termination
proof (relation "measure length")
  show "wf (measure length)" by simp
next
  fix b :: nat and bs :: "nat list"
  have "1 \<le> snd (DecodeRune (b # bs))"
    by (rule DecodeRune_width) simp
  then show "(drop (snd (DecodeRune (b # bs))) (b # bs), b # bs) \<in> measure length"
    by simp
qed

definition text_ok :: "string \<Rightarrow> bool" where
  "text_ok s = (0 \<notin> set (map of_char s :: nat list) \<and> utf8_valid (map of_char s))"

definition int4 :: "int \<Rightarrow> bool" where
  "int4 p = (- 2147483648 \<le> p \<and> p \<le> 2147483647)"

definition date_key :: "Time \<Rightarrow> int \<times> int \<times> int" where
  "date_key t = (Year t, month_int (Month t), Day t)"

text \<open>Year 0 of \<open>time.Time\<close> is 1 BC, so 4714 BC is the year \<open>- 4713\<close>.\<close>

definition date_ok :: "Time \<Rightarrow> bool" where
  "date_ok t = ((- 4713, 11, 24) \<le> date_key t \<and> Year t \<le> 5874897)"

definition null_date_ok :: "Time option \<Rightarrow> bool" where
  "null_date_ok t = (case t of None \<Rightarrow> True | Some d \<Rightarrow> date_ok d)"

definition row_checks :: "Subscription \<Rightarrow> bool" where
  "row_checks r =
     (0 \<le> Price r \<and>
      (case EndMonth r of None \<Rightarrow> True | Some e \<Rightarrow> \<not> Before e (StartMonth r)))"

subsection \<open>The statements\<close>

definition query_insert :: "CreateInput \<Rightarrow> Database \<Rightarrow> (error + Subscription) \<times> Database" where
  "query_insert input db =
     (case outage db of
        Some msg \<Rightarrow> (Inl (DriverError msg), db)
      | None \<Rightarrow>
          if \<not> text_ok (NewServiceName input)
          then (Inl (DriverError ''invalid byte sequence''), db)
          else if \<not> int4 (NewPrice input)
          then (Inl (DriverError ''integer out of range''), db)
          else if uuid_refused (NewUserID input)
          then (Inl (DriverError ''invalid input syntax for type uuid''), db)
          else if \<not> date_ok (NewStartMonth input) \<or> \<not> null_date_ok (NewEndMonth input)
          then (Inl (DriverError ''date out of range''), db)
          else
            let db' = db\<lparr>generated := Suc (generated db)\<rparr> in
            (case uuid_Value (NewUserID input) of
               None \<Rightarrow> (Inl (DriverError ''null value in column user_id''), db')
             | Some user \<Rightarrow>
                 let r = \<lparr>ID = uuid_generate_v4 db (generated db),
                          ServiceName = NewServiceName input, Price = NewPrice input,
                          UserID = uuid_out (the (uuid_in user)),
                          StartMonth = NewStartMonth input,
                          EndMonth = NewEndMonth input\<rparr>
                 in if \<not> row_checks r
                    then (Inl (DriverError ''check constraint violated''), db')
                    else if list_ex (\<lambda>x. same_uuid (ID r) (ID x)) (subscriptions db)
                    then (Inl (DriverError ''duplicate key''), db')
                    else (Inr r, db'\<lparr>subscriptions := subscriptions db @ [r]\<rparr>)))"

definition query_select_id :: "UUID \<Rightarrow> Database \<Rightarrow> (error + Subscription) \<times> Database" where
  "query_select_id sid db =
     (case outage db of
        Some msg \<Rightarrow> (Inl (DriverError msg), db)
      | None \<Rightarrow>
          if uuid_refused sid
          then (Inl (DriverError ''invalid input syntax for type uuid''), db)
          else
            (case filter (id_matches sid) (subscriptions db) of
               [] \<Rightarrow> (Inl ErrNoRows, db)
             | r # rest \<Rightarrow> (Inr r, db)))"

definition set_columns :: "UpdateInput \<Rightarrow> Subscription \<Rightarrow> Subscription" where
  "set_columns input r =
     r\<lparr>ServiceName := SetServiceName input, Price := SetPrice input,
       StartMonth := SetStartMonth input, EndMonth := SetEndMonth input\<rparr>"

definition query_update ::
  "UpdateInput \<Rightarrow> UUID \<Rightarrow> Database \<Rightarrow> (error + Subscription) \<times> Database" where
  "query_update input sid db =
     (case outage db of
        Some msg \<Rightarrow> (Inl (DriverError msg), db)
      | None \<Rightarrow>
          if \<not> text_ok (SetServiceName input)
          then (Inl (DriverError ''invalid byte sequence''), db)
          else if \<not> int4 (SetPrice input)
          then (Inl (DriverError ''integer out of range''), db)
          else if \<not> date_ok (SetStartMonth input) \<or> \<not> null_date_ok (SetEndMonth input)
          then (Inl (DriverError ''date out of range''), db)
          else if uuid_refused sid
          then (Inl (DriverError ''invalid input syntax for type uuid''), db)
          else
            (case filter (id_matches sid) (subscriptions db) of
               [] \<Rightarrow> (Inl ErrNoRows, db)
             | r # rest \<Rightarrow>
                 if \<not> row_checks (set_columns input r)
                 then (Inl (DriverError ''check constraint violated''), db)
                 else (Inr (set_columns input r),
                       db\<lparr>subscriptions :=
                            map (\<lambda>x. if id_matches sid x then set_columns input x else x)
                              (subscriptions db)\<rparr>)))"

text \<open>\<open>ExecContext\<close> of the \<open>DELETE\<close>, with \<open>RowsAffected\<close> of its result.\<close>

definition exec_delete :: "UUID \<Rightarrow> Database \<Rightarrow> (error + nat) \<times> Database" where
  "exec_delete sid db =
     (case outage db of
        Some msg \<Rightarrow> (Inl (DriverError msg), db)
      | None \<Rightarrow>
          if uuid_refused sid
          then (Inl (DriverError ''invalid input syntax for type uuid''), db)
          else
            (Inr (length (filter (id_matches sid) (subscriptions db))),
             db\<lparr>subscriptions := filter (\<lambda>r. \<not> id_matches sid r) (subscriptions db)\<rparr>))"

text \<open>The conditions that \<open>ListSubscriptions\<close> joins with \<open>AND\<close>, each with its parameter.\<close>

datatype condition =
  UserIdEq UUID
| ServiceNameEq string
| StartMonthGe Time
| StartMonthLe Time
| EndMonthNullOrGe Time

fun holds :: "condition \<Rightarrow> Subscription \<Rightarrow> bool" where
  "holds (UserIdEq u) r = uuid_equals (UserID r) u"
| "holds (ServiceNameEq n) r = (ServiceName r = n)"
| "holds (StartMonthGe t) r = (date_key t \<le> date_key (StartMonth r))"
| "holds (StartMonthLe t) r = (date_key (StartMonth r) \<le> date_key t)"
| "holds (EndMonthNullOrGe t) r =
     (case EndMonth r of None \<Rightarrow> True | Some e \<Rightarrow> date_key t \<le> date_key e)"

fun refused :: "condition \<Rightarrow> bool" where
  "refused (UserIdEq u) = uuid_refused u"
| "refused (ServiceNameEq n) = (\<not> text_ok n)"
| "refused (StartMonthGe t) = (\<not> date_ok t)"
| "refused (StartMonthLe t) = (\<not> date_ok t)"
| "refused (EndMonthNullOrGe t) = (\<not> date_ok t)"

definition list_conditions :: "ListFilter \<Rightarrow> condition list" where
  "list_conditions flt =
     (case ByUserID flt of Some u \<Rightarrow> [UserIdEq u] | None \<Rightarrow> [])
     @ (case ByServiceName flt of Some n \<Rightarrow> [ServiceNameEq n] | None \<Rightarrow> [])
     @ (case StartMonthFrom flt of Some t \<Rightarrow> [StartMonthGe t] | None \<Rightarrow> [])
     @ (case StartMonthTo flt of Some t \<Rightarrow> [StartMonthLe t] | None \<Rightarrow> [])
     @ (if ActivePeriodFrom flt \<noteq> None \<and> ActivePeriodTo flt \<noteq> None
        then [StartMonthLe (the (ActivePeriodTo flt)),
              EndMonthNullOrGe (the (ActivePeriodFrom flt))]
        else [])"

definition select_where :: "condition list \<Rightarrow> Subscription list \<Rightarrow> Subscription list" where
  "select_where conditions rs =
     (if conditions = [] then rs
      else filter (\<lambda>r. list_all (\<lambda>c. holds c r) conditions) rs)"

definition order_by_start_month :: "Subscription list \<Rightarrow> Subscription list" where
  "order_by_start_month rs = sort_key (\<lambda>r. date_key (StartMonth r)) rs"

text \<open>\<open>LIMIT\<close> and \<open>OFFSET\<close>: the offset is skipped first, then the limit is counted.\<close>

definition paginate :: "ListFilter \<Rightarrow> Subscription list \<Rightarrow> Subscription list" where
  "paginate flt rs =
     (let skipped_rows = (if 0 < Offset flt then drop (nat (Offset flt)) rs else rs)
      in if 0 < Limit flt then take (nat (Limit flt)) skipped_rows else skipped_rows)"

definition query_select_list ::
  "ListFilter \<Rightarrow> Database \<Rightarrow> (error + Subscription list) \<times> Database" where
  "query_select_list flt db =
     (case outage db of
        Some msg \<Rightarrow> (Inl (DriverError msg), db)
      | None \<Rightarrow>
          if list_ex refused (list_conditions flt)
          then (Inl (DriverError ''invalid parameter''), db)
          else
            (Inr (paginate flt
                    (order_by_start_month
                       (select_where (list_conditions flt) (subscriptions db)))), db))"

subsection \<open>The methods of \<open>Storage\<close>\<close>

definition Storage_CreateSubscription ::
  "CreateInput \<Rightarrow> Database \<Rightarrow> (error + Subscription) \<times> Database" where
  "Storage_CreateSubscription input db =
     (case query_insert input db of
        (Inl err, db') \<Rightarrow> (Inl (Wrapped ''storage.postgresql.CreateSubscription'' err), db')
      | (Inr sub, db') \<Rightarrow> (Inr sub, db'))"

definition Storage_GetSubscription ::
  "UUID \<Rightarrow> Database \<Rightarrow> (error + Subscription) \<times> Database" where
  "Storage_GetSubscription sid db =
     (case query_select_id sid db of
        (Inl err, db') \<Rightarrow>
          if errors_Is err ErrNoRows then (Inl ErrNotFound, db')
          else (Inl (Wrapped ''storage.postgresql.GetSubscription'' err), db')
      | (Inr sub, db') \<Rightarrow> (Inr sub, db'))"

definition Storage_UpdateSubscription ::
  "UUID \<Rightarrow> UpdateInput \<Rightarrow> Database \<Rightarrow> (error + Subscription) \<times> Database" where
  "Storage_UpdateSubscription sid input db =
     (case query_update input sid db of
        (Inl err, db') \<Rightarrow>
          if errors_Is err ErrNoRows then (Inl ErrNotFound, db')
          else (Inl (Wrapped ''storage.postgresql.UpdateSubscription'' err), db')
      | (Inr sub, db') \<Rightarrow> (Inr sub, db'))"

definition Storage_DeleteSubscription ::
  "UUID \<Rightarrow> Database \<Rightarrow> (error + unit) \<times> Database" where
  "Storage_DeleteSubscription sid db =
     (case exec_delete sid db of
        (Inl err, db') \<Rightarrow> (Inl (Wrapped ''storage.postgresql.DeleteSubscription'' err), db')
      | (Inr affected, db') \<Rightarrow>
          if affected = 0 then (Inl ErrNotFound, db') else (Inr (), db'))"

definition Storage_ListSubscriptions ::
  "ListFilter \<Rightarrow> Database \<Rightarrow> (error + Subscription list) \<times> Database" where
  "Storage_ListSubscriptions flt db =
     (case query_select_list flt db of
        (Inl err, db') \<Rightarrow> (Inl (Wrapped ''storage.postgresql.ListSubscriptions'' err), db')
      | (Inr result, db') \<Rightarrow> (Inr result, db'))"

definition Storage :: "Database Repository" where
  "Storage =
     \<lparr>CreateSubscription = Storage_CreateSubscription,
      GetSubscription = Storage_GetSubscription,
      UpdateSubscription = Storage_UpdateSubscription,
      DeleteSubscription = Storage_DeleteSubscription,
      ListSubscriptions = Storage_ListSubscriptions\<rparr>"

text \<open>
  What the primary key guarantees of a table state: every identifier spells a uuid, and
  no two rows have the same one.
\<close>

definition primary_key :: "Database \<Rightarrow> bool" where
  "primary_key db =
     (list_all (\<lambda>r. uuid_text (ID r)) (subscriptions db) \<and>
      distinct (map (\<lambda>r. uuid_in (ID r)) (subscriptions db)))"


definition spec_overlaps :: "Time \<Rightarrow> Time \<Rightarrow> Subscription \<Rightarrow> bool" where
  "spec_overlaps activeFrom activeTo s =
     (\<not> After (StartMonth s) activeTo \<and>
      (EndMonth s = None \<or> \<not> Before (the (EndMonth s)) activeFrom))"

text \<open>
  The parameters of a list filter that the column types accept: a user identifier that
  is empty or spells a uuid, a service name that is text, dates in the range of \<open>DATE\<close>.
\<close>

definition filter_accepted :: "ListFilter \<Rightarrow> bool" where
  "filter_accepted flt =
     ((case ByUserID flt of None \<Rightarrow> True | Some u \<Rightarrow> u = [] \<or> uuid_text u) \<and>
      (case ByServiceName flt of None \<Rightarrow> True | Some n \<Rightarrow> text_ok n) \<and>
      null_date_ok (StartMonthFrom flt) \<and> null_date_ok (StartMonthTo flt) \<and>
      (if ActivePeriodFrom flt \<noteq> None \<and> ActivePeriodTo flt \<noteq> None
       then date_ok (the (ActivePeriodFrom flt)) \<and> date_ok (the (ActivePeriodTo flt))
       else True))"

text \<open>
  An update whose parameters the column types accept, and one whose values the two
  \<open>CHECK\<close> constraints accept.
\<close>

definition update_binds :: "UpdateInput \<Rightarrow> bool" where
  "update_binds input =
     (text_ok (SetServiceName input) \<and> int4 (SetPrice input) \<and>
      date_ok (SetStartMonth input) \<and> null_date_ok (SetEndMonth input))"

definition update_checks :: "UpdateInput \<Rightarrow> bool" where
  "update_checks input =
     (0 \<le> SetPrice input \<and>
      (case SetEndMonth input of None \<Rightarrow> True
       | Some e \<Rightarrow> \<not> Before e (SetStartMonth input)))"

text \<open>A table state with one row, for running the methods.\<close>

definition sample_row :: Subscription where
  "sample_row =
     \<lparr>ID = ''6f1c2a9e-0b7d-4c55-9e3a-2f8d1b4c7a10'', ServiceName = ''Yandex Plus'',
      Price = 400, UserID = ''60601fee-2bf1-4721-ae6f-7636e79a0cba'',
      StartMonth = \<lparr>Year = 2023, Month = January, Day = 1\<rparr>,
      EndMonth = Some \<lparr>Year = 2023, Month = June, Day = 1\<rparr>\<rparr>"

definition sample_db :: Database where
  "sample_db =
     \<lparr>subscriptions = [sample_row], outage = None,
      uuid_generate_v4 = (\<lambda>n. ''0e4b7c1d-5a2f-4d3e-8b6a-9c0d1e2f3a4b''), generated = 1\<rparr>"

section \<open>Properties\<close>

lemma month_int_range: "1 \<le> month_int m \<and> month_int m \<le> 12"
  by (cases m) simp_all

lemma month_int_inj: "month_int a = month_int b \<Longrightarrow> a = b"
  by (cases a; cases b) simp_all

lemma not_After_months_pos:
  assumes "\<not> After start endt"
  shows "1 \<le> (Year endt - Year start) * 12
              + (month_int (Month endt) - month_int (Month start)) + 1"
proof -
  have r1: "1 \<le> month_int (Month start) \<and> month_int (Month start) \<le> 12"
    by (rule month_int_range)
  have r2: "1 \<le> month_int (Month endt) \<and> month_int (Month endt) \<le> 12"
    by (rule month_int_range)
  from assms have "Year start < Year endt \<or>
      (Year start = Year endt \<and> month_int (Month start) \<le> month_int (Month endt))"
    unfolding After_def by auto
  with r1 r2 show ?thesis by auto
qed

lemma int64_id: "- (2 ^ 63) \<le> x \<Longrightarrow> x < 2 ^ 63 \<Longrightarrow> int64 x = x"
  by (simp add: int64_def)

text \<open>
  C4. For month values with \<open>overlapStart\<close> not after \<open>effectiveEnd\<close>, the month count of
  \<open>Sum\<close> is \<open>(effectiveEnd.year - overlapStart.year) * 12 + (effectiveEnd.month -
  overlapStart.month) + 1\<close>, at least 1, and exactly 1 when both lie in the same calendar
  month. A subscription of price 50 with \<open>startMonth = endMonth = 2023-06\<close> contributes
  exactly 50 to the sum over the window 2023-01 .. 2023-12.
\<close>

theorem monthsBetween_inclusive:
  "(\<not> After overlapStart effectiveEnd \<longrightarrow>
      monthsBetween overlapStart effectiveEnd =
        (Year effectiveEnd - Year overlapStart) * 12
        + (month_int (Month effectiveEnd) - month_int (Month overlapStart)) + 1
      \<and> 1 \<le> monthsBetween overlapStart effectiveEnd)
   \<and> (Year overlapStart = Year effectiveEnd \<and> Month overlapStart = Month effectiveEnd \<longrightarrow>
      monthsBetween overlapStart effectiveEnd = 1)
   \<and> sum_loop
        \<lparr>ForUserID = None, ForServiceName = None,
         PeriodStart = \<lparr>Year = 2023, Month = January, Day = 1\<rparr>,
         PeriodEnd = \<lparr>Year = 2023, Month = December, Day = 1\<rparr>\<rparr>
        [\<lparr>ID = i, ServiceName = n, Price = 50, UserID = u,
          StartMonth = \<lparr>Year = 2023, Month = June, Day = 1\<rparr>,
          EndMonth = Some \<lparr>Year = 2023, Month = June, Day = 1\<rparr>\<rparr>] 0 = 50"
proof (intro conjI impI)
  assume h: "\<not> After overlapStart effectiveEnd"
  from not_After_months_pos [OF h]
  show "monthsBetween overlapStart effectiveEnd =
        (Year effectiveEnd - Year overlapStart) * 12
        + (month_int (Month effectiveEnd) - month_int (Month overlapStart)) + 1"
    by (simp add: monthsBetween_def Let_def)
  from not_After_months_pos [OF h]
  show "1 \<le> monthsBetween overlapStart effectiveEnd"
    by (simp add: monthsBetween_def Let_def)
next
  assume "Year overlapStart = Year effectiveEnd \<and> Month overlapStart = Month effectiveEnd"
  then show "monthsBetween overlapStart effectiveEnd = 1"
    by (simp add: monthsBetween_def Let_def)
next
  show "sum_loop
        \<lparr>ForUserID = None, ForServiceName = None,
         PeriodStart = \<lparr>Year = 2023, Month = January, Day = 1\<rparr>,
         PeriodEnd = \<lparr>Year = 2023, Month = December, Day = 1\<rparr>\<rparr>
        [\<lparr>ID = i, ServiceName = n, Price = 50, UserID = u,
          StartMonth = \<lparr>Year = 2023, Month = June, Day = 1\<rparr>,
          EndMonth = Some \<lparr>Year = 2023, Month = June, Day = 1\<rparr>\<rparr>] 0 = 50"
    by (simp add: maxTime_def After_def Before_def monthsBetween_def int64_def Let_def)
qed

theorem monthsBetween_inclusive_witness:
  "\<not> After \<lparr>Year = 2022, Month = November, Day = 1\<rparr> \<lparr>Year = 2023, Month = February, Day = 1\<rparr>
   \<and> monthsBetween \<lparr>Year = 2022, Month = November, Day = 1\<rparr>
        \<lparr>Year = 2023, Month = February, Day = 1\<rparr> = 4
   \<and> monthsBetween \<lparr>Year = 2023, Month = June, Day = 1\<rparr>
        \<lparr>Year = 2023, Month = June, Day = 1\<rparr> = 1"
  using monthsBetween_inclusive
    [of "\<lparr>Year = 2022, Month = November, Day = 1\<rparr>" "\<lparr>Year = 2023, Month = February, Day = 1\<rparr>"]
    monthsBetween_inclusive
    [of "\<lparr>Year = 2023, Month = June, Day = 1\<rparr>" "\<lparr>Year = 2023, Month = June, Day = 1\<rparr>"]
  by (simp add: After_def)

text \<open>
  C5, as stated, fails in its conclusion that no subscription ever makes a negative
  contribution to the total. The month count is never negative, but the product
  \<open>sub.Price * months\<close> is a Go \<open>int\<close> and the price is not checked: with the window
  2023-01 .. 2023-02 and a total starting at 0, an open-ended candidate of price \<open>2^62\<close>
  contributes \<open>-2^63\<close>, and one of price \<open>-5\<close> contributes \<open>-10\<close>.
\<close>

theorem contribution_can_be_negative:
  "0 \<le> Price
     \<lparr>ID = ''a'', ServiceName = ''tv'', Price = 4611686018427387904, UserID = ''u'',
        StartMonth = \<lparr>Year = 2023, Month = January, Day = 1\<rparr>, EndMonth = None\<rparr>
   \<and> sum_loop
     \<lparr>ForUserID = None, ForServiceName = None,
        PeriodStart = \<lparr>Year = 2023, Month = January, Day = 1\<rparr>,
        PeriodEnd = \<lparr>Year = 2023, Month = February, Day = 1\<rparr>\<rparr>
     [\<lparr>ID = ''a'', ServiceName = ''tv'', Price = 4611686018427387904, UserID = ''u'',
        StartMonth = \<lparr>Year = 2023, Month = January, Day = 1\<rparr>, EndMonth = None\<rparr>] 0
     = - 9223372036854775808
   \<and> sum_loop
     \<lparr>ForUserID = None, ForServiceName = None,
        PeriodStart = \<lparr>Year = 2023, Month = January, Day = 1\<rparr>,
        PeriodEnd = \<lparr>Year = 2023, Month = February, Day = 1\<rparr>\<rparr>
     [\<lparr>ID = ''a'', ServiceName = ''tv'', Price = - 5, UserID = ''u'',
        StartMonth = \<lparr>Year = 2023, Month = January, Day = 1\<rparr>, EndMonth = None\<rparr>] 0
     = - 10"
  by (simp add: maxTime_def After_def Before_def monthsBetween_def int64_def Let_def)

text \<open>
  C5, amended. For every pair of month values, with no relation assumed between them, the
  month count is never negative: it is the raw count \<open>y*12 + m + 1\<close> floored at zero, and
  the floor is applied before the count is multiplied by a price. A subscription whose
  price is non-negative and whose product of price and month count is below \<open>2^63\<close>
  makes a non-negative contribution to a total that starts at 0: the product itself when
  it is counted, nothing when it is skipped.
\<close>

theorem monthsBetween_nonneg:
  "0 \<le> monthsBetween start endt
   \<and> monthsBetween start endt =
       max 0 ((Year endt - Year start) * 12
              + (month_int (Month endt) - month_int (Month start)) + 1)
   \<and> (0 \<le> Price sub \<and> Price sub * months_of input sub < 2 ^ 63 \<longrightarrow>
        0 \<le> sum_loop input [sub] 0
        \<and> sum_loop input [sub] 0 =
            (if skipped input sub then 0 else Price sub * months_of input sub))"
proof (intro conjI impI)
  show "0 \<le> monthsBetween start endt"
    by (simp add: monthsBetween_def Let_def)
  show "monthsBetween start endt =
       max 0 ((Year endt - Year start) * 12
              + (month_int (Month endt) - month_int (Month start)) + 1)"
    by (simp add: monthsBetween_def Let_def)
next
  assume a: "0 \<le> Price sub \<and> Price sub * months_of input sub < 2 ^ 63"
  have m: "0 \<le> months_of input sub"
    by (simp add: months_of_def monthsBetween_def Let_def)
  with a have p: "0 \<le> Price sub * months_of input sub"
    by simp
  have z: "int64 0 = 0"
    by (simp add: int64_def)
  have c: "int64 (Price sub * months_of input sub) = Price sub * months_of input sub"
    using p a by (simp add: int64_id)
  have l: "sum_loop input [sub] 0 =
        (if skipped input sub then 0 else int64 (0 + int64 (Price sub * months_of input sub)))"
    by (simp add: skipped_def months_of_def overlapStart_of_def subEnd_of_def Let_def)
  then show e: "sum_loop input [sub] 0 =
            (if skipped input sub then 0 else Price sub * months_of input sub)"
    by (simp add: c)
  from e p show "0 \<le> sum_loop input [sub] 0"
    by simp
qed

theorem monthsBetween_nonneg_witness:
  "monthsBetween \<lparr>Year = 2024, Month = March, Day = 1\<rparr>
      \<lparr>Year = 2023, Month = January, Day = 1\<rparr> = 0
   \<and> 0 \<le> Price
     \<lparr>ID = ''a'', ServiceName = ''tv'', Price = 7, UserID = ''u'',
        StartMonth = \<lparr>Year = 2023, Month = January, Day = 1\<rparr>, EndMonth = None\<rparr>
   \<and> sum_loop
     \<lparr>ForUserID = None, ForServiceName = None,
        PeriodStart = \<lparr>Year = 2023, Month = January, Day = 1\<rparr>,
        PeriodEnd = \<lparr>Year = 2023, Month = February, Day = 1\<rparr>\<rparr>
     [\<lparr>ID = ''a'', ServiceName = ''tv'', Price = 7, UserID = ''u'',
        StartMonth = \<lparr>Year = 2023, Month = January, Day = 1\<rparr>, EndMonth = None\<rparr>] 0
     = 14"
proof -
  let ?sub = "\<lparr>ID = ''a'', ServiceName = ''tv'', Price = 7, UserID = ''u'',
        StartMonth = \<lparr>Year = 2023, Month = January, Day = 1\<rparr>, EndMonth = None\<rparr>"
  let ?f = "\<lparr>ForUserID = None, ForServiceName = None,
        PeriodStart = \<lparr>Year = 2023, Month = January, Day = 1\<rparr>,
        PeriodEnd = \<lparr>Year = 2023, Month = February, Day = 1\<rparr>\<rparr>"
  have m: "months_of ?f ?sub = 2" and k: "\<not> skipped ?f ?sub"
    by (simp_all add: months_of_def skipped_def overlapStart_of_def subEnd_of_def
        maxTime_def monthsBetween_def After_def Before_def Let_def)
  note t = monthsBetween_nonneg
    [of "\<lparr>Year = 2024, Month = March, Day = 1\<rparr>" "\<lparr>Year = 2023, Month = January, Day = 1\<rparr>"
        ?sub ?f]
  from t have a: "monthsBetween \<lparr>Year = 2024, Month = March, Day = 1\<rparr>
      \<lparr>Year = 2023, Month = January, Day = 1\<rparr> = 0"
    by simp
  have b: "0 \<le> Price ?sub" by simp
  from t have "0 \<le> Price ?sub \<and> Price ?sub * months_of ?f ?sub < 2 ^ 63 \<longrightarrow>
      sum_loop ?f [?sub] 0 = (if skipped ?f ?sub then 0 else Price ?sub * months_of ?f ?sub)"
    by blast
  then have c: "sum_loop ?f [?sub] 0 = 14"
    by (simp add: m k)
  show ?thesis using a b c by blast
qed

subsection \<open>The loop and its exact total\<close>

lemma int64_idem: "int64 (int64 x) = int64 x"
  by (simp add: int64_def)

lemma int64_add_left: "int64 (int64 a + b) = int64 (a + b)"
proof -
  have "(((a + 2 ^ 63) mod 2 ^ 64 - 2 ^ 63) + b + 2 ^ 63) mod (2 ^ 64 :: int)
        = ((a + 2 ^ 63) mod 2 ^ 64 + b) mod 2 ^ 64"
    by (simp add: algebra_simps)
  also have "\<dots> = ((a + 2 ^ 63) + b) mod 2 ^ 64"
    by (rule mod_add_left_eq)
  also have "\<dots> = (a + b + 2 ^ 63) mod 2 ^ 64"
    by (simp add: algebra_simps)
  finally show ?thesis by (simp add: int64_def)
qed

lemma int64_add_right: "int64 (a + int64 b) = int64 (a + b)"
  using int64_add_left [of b a] by (simp add: add.commute)

lemma Time_eq: "Year a = Year b \<Longrightarrow> Month a = Month b \<Longrightarrow> Day a = Day b \<Longrightarrow> (a::Time) = b"
  by simp

lemma month_int_eq_iff: "month_int a = month_int b \<longleftrightarrow> a = b"
  using month_int_inj by auto

lemma not_After_not_Before: "\<not> After a b \<Longrightarrow> \<not> Before a b \<Longrightarrow> (a::Time) = b"
  unfolding After_def Before_def
  by (rule Time_eq) (auto simp: month_int_eq_iff)

lemma After_Before: "After a b = Before b a"
  unfolding After_def Before_def by auto

lemma After_not_Before: "After a b \<Longrightarrow> \<not> Before a b"
  unfolding After_def Before_def by auto

lemma sum_loop_Cons:
  "sum_loop input (sub # subs) tot =
     (if skipped input sub then sum_loop input subs tot
      else sum_loop input subs (int64 (tot + int64 (Price sub * months_of input sub))))"
  by (simp add: skipped_def months_of_def overlapStart_of_def subEnd_of_def Let_def)

lemma sum_loop_exact:
  "int64 tot = tot \<Longrightarrow> sum_loop input subs tot = int64 (tot + exact_total input subs)"
proof (induction subs arbitrary: tot)
  case Nil
  then show ?case by (simp add: exact_total_def)
next
  case (Cons sub subs)
  show ?case
  proof (cases "skipped input sub")
    case True
    with Cons show ?thesis
      by (simp add: sum_loop_Cons exact_total_def exact_contribution_def del: sum_loop.simps)
  next
    case False
    have "sum_loop input (sub # subs) tot =
          sum_loop input subs (int64 (tot + int64 (Price sub * months_of input sub)))"
      using False by (simp add: sum_loop_Cons del: sum_loop.simps)
    also have "\<dots> = int64 (int64 (tot + int64 (Price sub * months_of input sub))
                          + exact_total input subs)"
      by (rule Cons.IH) (rule int64_idem)
    also have "\<dots> = int64 (tot + Price sub * months_of input sub + exact_total input subs)"
      by (simp add: int64_add_left int64_add_right)
    finally show ?thesis
      using False by (simp add: exact_total_def exact_contribution_def add.assoc)
  qed
qed

lemma monthsBetween_ge0: "0 \<le> monthsBetween a b"
  by (simp add: monthsBetween_def Let_def)

lemma exact_contribution_nonneg: "0 \<le> Price s \<Longrightarrow> 0 \<le> exact_contribution f s"
  using monthsBetween_ge0 [of "overlapStart_of f s" "subEnd_of f s"]
  by (simp add: exact_contribution_def months_of_def)

lemma exact_total_nonneg: "list_all (\<lambda>s. 0 \<le> Price s) subs \<Longrightarrow> 0 \<le> exact_total f subs"
  by (induction subs) (auto simp: exact_total_def exact_contribution_nonneg)

subsection \<open>The specified sum and the loop\<close>

text \<open>Between dates on one day of the month, the order of dates is the order of months.\<close>

lemma month_value_less:
  "month_value a < month_value b \<longleftrightarrow>
     Year a < Year b \<or> (Year a = Year b \<and> month_int (Month a) < month_int (Month b))"
proof -
  have "1 \<le> month_int (Month a) \<and> month_int (Month a) \<le> 12"
    and "1 \<le> month_int (Month b) \<and> month_int (Month b) \<le> 12"
    by (rule month_int_range)+
  then show ?thesis unfolding month_value_def by auto
qed

lemma After_month_value: "Day a = Day b \<Longrightarrow> After a b \<longleftrightarrow> month_value b < month_value a"
  by (auto simp: After_def month_value_less)

lemma Before_month_value: "Day a = Day b \<Longrightarrow> Before a b \<longleftrightarrow> month_value a < month_value b"
  by (auto simp: Before_def month_value_less)

lemma month_value_eq:
  assumes "Day a = Day b" "\<not> month_value a < month_value b" "\<not> month_value b < month_value a"
  shows "(a::Time) = b"
proof (rule Time_eq)
  from assms(2,3) show y: "Year a = Year b"
    by (auto simp: month_value_less)
  from assms(2,3) y have "month_int (Month a) = month_int (Month b)"
    by (auto simp: month_value_less)
  then show "Month a = Month b" by (rule month_int_inj)
  show "Day a = Day b" by (rule assms(1))
qed

lemma spec_overlapStart_aligned:
  assumes "filter_on_day d f" "sub_on_day d s"
  shows "spec_overlapStart f s = overlapStart_of f s"
proof -
  from assms have day: "Day (StartMonth s) = Day (PeriodStart f)"
    by (simp add: filter_on_day_def sub_on_day_def)
  show ?thesis
  proof (cases "month_value (StartMonth s) < month_value (PeriodStart f)")
    case True
    then have "\<not> After (StartMonth s) (PeriodStart f)"
      using day by (simp add: After_month_value)
    with True show ?thesis
      by (simp add: spec_overlapStart_def overlapStart_of_def maxTime_def)
  next
    case False
    show ?thesis
    proof (cases "After (StartMonth s) (PeriodStart f)")
      case True
      with False show ?thesis
        by (simp add: spec_overlapStart_def overlapStart_of_def maxTime_def)
    next
      case nafter: False
      then have "\<not> month_value (PeriodStart f) < month_value (StartMonth s)"
        using day by (simp add: After_month_value)
      with day False have "StartMonth s = PeriodStart f"
        by (intro month_value_eq) simp_all
      with False nafter show ?thesis
        by (simp add: spec_overlapStart_def overlapStart_of_def maxTime_def)
    qed
  qed
qed

lemma spec_effectiveEnd_aligned:
  assumes "filter_on_day d f" "sub_on_day d s"
  shows "spec_effectiveEnd f s = subEnd_of f s"
proof (cases "EndMonth s")
  case None
  then show ?thesis by (simp add: spec_effectiveEnd_def subEnd_of_def)
next
  case (Some e)
  with assms have "Day e = Day (PeriodEnd f)"
    by (simp add: filter_on_day_def sub_on_day_def)
  then have "Before e (PeriodEnd f) \<longleftrightarrow> month_value e < month_value (PeriodEnd f)"
    by (rule Before_month_value)
  with Some show ?thesis by (simp add: spec_effectiveEnd_def subEnd_of_def)
qed

lemma Day_overlapStart_of:
  "filter_on_day d f \<Longrightarrow> sub_on_day d s \<Longrightarrow> Day (overlapStart_of f s) = d"
  by (simp add: overlapStart_of_def maxTime_def filter_on_day_def sub_on_day_def)

lemma Day_subEnd_of:
  "filter_on_day d f \<Longrightarrow> sub_on_day d s \<Longrightarrow> Day (subEnd_of f s) = d"
  by (simp add: subEnd_of_def filter_on_day_def sub_on_day_def split: option.splits)

lemma spec_contribution_aligned:
  assumes "filter_on_day d f" "sub_on_day d s"
  shows "spec_contribution f s = exact_contribution f s"
proof -
  note o = spec_overlapStart_aligned [OF assms] and e = spec_effectiveEnd_aligned [OF assms]
  have day: "Day (overlapStart_of f s) = Day (subEnd_of f s)"
    using Day_overlapStart_of [OF assms] Day_subEnd_of [OF assms] by simp
  have sk: "skipped f s \<longleftrightarrow> month_value (subEnd_of f s) < month_value (overlapStart_of f s)"
    unfolding skipped_def using day by (rule After_month_value)
  show ?thesis
  proof (cases "skipped f s")
    case True
    with sk show ?thesis
      by (simp add: spec_contribution_def exact_contribution_def o e)
  next
    case False
    then have h: "\<not> After (overlapStart_of f s) (subEnd_of f s)"
      by (simp add: skipped_def)
    from not_After_months_pos [OF h] False sk show ?thesis
      by (simp add: spec_contribution_def exact_contribution_def spec_monthsOverlap_def o e
          months_of_def monthsBetween_def Let_def)
  qed
qed

lemma spec_total_aligned:
  "filter_on_day d f \<Longrightarrow> list_all (sub_on_day d) subs \<Longrightarrow> spec_total f subs = exact_total f subs"
  by (induction subs) (simp_all add: spec_total_def exact_total_def spec_contribution_aligned)

text \<open>
  C1, as stated, fails twice. Go's \<open>int\<close> wraps around: for one open-ended candidate of
  price \<open>2^62\<close> and the window 2023-01 .. 2023-02 the specified sum is \<open>2^63\<close> and \<open>Sum\<close>
  returns \<open>-2^63\<close>. And the code compares whole dates where the specification compares
  months: for the window 2023-01-01 .. 2023-06-01 and an open-ended candidate of price 100
  that starts on 2023-06-02, the specified sum is 100 (one month, June) and \<open>Sum\<close>
  returns 0.
\<close>

theorem Service_Sum_not_specified_sum:
  "spec_total
     \<lparr>ForUserID = None, ForServiceName = None,
        PeriodStart = \<lparr>Year = 2023, Month = January, Day = 1\<rparr>,
        PeriodEnd = \<lparr>Year = 2023, Month = February, Day = 1\<rparr>\<rparr>
     [\<lparr>ID = ''a'', ServiceName = ''tv'', Price = 4611686018427387904, UserID = ''u'',
        StartMonth = \<lparr>Year = 2023, Month = January, Day = 1\<rparr>, EndMonth = None\<rparr>]
     = 9223372036854775808
   \<and> Service_Sum
     (listing_repo [\<lparr>ID = ''a'', ServiceName = ''tv'', Price = 4611686018427387904, UserID = ''u'',
        StartMonth = \<lparr>Year = 2023, Month = January, Day = 1\<rparr>, EndMonth = None\<rparr>])
     \<lparr>ForUserID = None, ForServiceName = None,
        PeriodStart = \<lparr>Year = 2023, Month = January, Day = 1\<rparr>,
        PeriodEnd = \<lparr>Year = 2023, Month = February, Day = 1\<rparr>\<rparr> ()
     = (Inr (- 9223372036854775808), ())
   \<and> spec_total
     \<lparr>ForUserID = None, ForServiceName = None,
        PeriodStart = \<lparr>Year = 2023, Month = January, Day = 1\<rparr>,
        PeriodEnd = \<lparr>Year = 2023, Month = June, Day = 1\<rparr>\<rparr>
     [\<lparr>ID = ''a'', ServiceName = ''tv'', Price = 100, UserID = ''u'',
        StartMonth = \<lparr>Year = 2023, Month = June, Day = 2\<rparr>, EndMonth = None\<rparr>]
     = 100
   \<and> Service_Sum
     (listing_repo [\<lparr>ID = ''a'', ServiceName = ''tv'', Price = 100, UserID = ''u'',
        StartMonth = \<lparr>Year = 2023, Month = June, Day = 2\<rparr>, EndMonth = None\<rparr>])
     \<lparr>ForUserID = None, ForServiceName = None,
        PeriodStart = \<lparr>Year = 2023, Month = January, Day = 1\<rparr>,
        PeriodEnd = \<lparr>Year = 2023, Month = June, Day = 1\<rparr>\<rparr> ()
     = (Inr 0, ())"
  by (simp add: spec_total_def spec_contribution_def spec_monthsOverlap_def
      spec_overlapStart_def spec_effectiveEnd_def month_value_def
      Service_Sum_def listing_repo_def maxTime_def After_def Before_def
      monthsBetween_def int64_def Let_def)

text \<open>
  C1, amended. \<open>Sum\<close> asks the repository with the derived list filter (active period
  from \<open>periodStart\<close> to \<open>periodEnd\<close>, user and service name passed through). For every
  summary filter and every candidate list the repository returns whose dates all fall on
  one common day of the month (as the first-of-month values of the boundary do), \<open>Sum\<close>
  answers without an error the specified sum over the candidates of \<open>price *
  monthsOverlap\<close>, reduced to a Go \<open>int\<close>: it is the specified sum itself whenever that
  lies from \<open>-2^63\<close> to \<open>2^63 - 1\<close>. A candidate with \<open>overlapStart > effectiveEnd\<close> adds
  0, an open-ended subscription is priced through \<open>periodEnd\<close>, and an empty candidate
  list gives 0.
\<close>

theorem Service_Sum_total:
  assumes "ListSubscriptions repo (summary_listFilter input) st = (Inr subs, st')"
    and "filter_on_day d input" and "list_all (sub_on_day d) subs"
  shows "Service_Sum repo input st = (Inr (int64 (spec_total input subs)), st')
    \<and> (- (2 ^ 63) \<le> spec_total input subs \<and> spec_total input subs < 2 ^ 63 \<longrightarrow>
         Service_Sum repo input st = (Inr (spec_total input subs), st'))
    \<and> (subs = [] \<longrightarrow> Service_Sum repo input st = (Inr 0, st'))
    \<and> (\<forall>s. EndMonth s = None \<longrightarrow> subEnd_of input s = PeriodEnd input)
    \<and> ActivePeriodFrom (summary_listFilter input) = Some (PeriodStart input)
    \<and> ActivePeriodTo (summary_listFilter input) = Some (PeriodEnd input)
    \<and> ByUserID (summary_listFilter input) = ForUserID input
    \<and> ByServiceName (summary_listFilter input) = ForServiceName input"
proof -
  have same: "spec_total input subs = exact_total input subs"
    using assms(2,3) by (rule spec_total_aligned)
  have "int64 0 = 0" by (simp add: int64_def)
  then have loop: "sum_loop input subs 0 = int64 (spec_total input subs)"
    using sum_loop_exact [of 0 input subs] by (simp add: same)
  have run: "Service_Sum repo input st = (Inr (int64 (spec_total input subs)), st')"
    using assms(1) loop by (simp add: Service_Sum_def)
  have fits: "- (2 ^ 63) \<le> spec_total input subs \<and> spec_total input subs < 2 ^ 63 \<longrightarrow>
         Service_Sum repo input st = (Inr (spec_total input subs), st')"
    using run by (simp add: int64_id)
  have empty: "subs = [] \<longrightarrow> Service_Sum repo input st = (Inr 0, st')"
    using run by (auto simp: spec_total_def int64_def)
  have open_ended: "\<forall>s. EndMonth s = None \<longrightarrow> subEnd_of input s = PeriodEnd input"
    by (simp add: subEnd_of_def)
  show ?thesis
    using run fits empty open_ended by (simp add: summary_listFilter_def)
qed

theorem Service_Sum_total_witness:
  "ListSubscriptions
     (listing_repo [\<lparr>ID = ''a'', ServiceName = ''tv'', Price = 100, UserID = ''u'',
        StartMonth = \<lparr>Year = 2023, Month = January, Day = 1\<rparr>, EndMonth = None\<rparr>])
     (summary_listFilter \<lparr>ForUserID = None, ForServiceName = None,
        PeriodStart = \<lparr>Year = 2023, Month = January, Day = 1\<rparr>,
        PeriodEnd = \<lparr>Year = 2023, Month = March, Day = 1\<rparr>\<rparr>) ()
   = (Inr [\<lparr>ID = ''a'', ServiceName = ''tv'', Price = 100, UserID = ''u'',
        StartMonth = \<lparr>Year = 2023, Month = January, Day = 1\<rparr>, EndMonth = None\<rparr>], ())
   \<and> filter_on_day 1 \<lparr>ForUserID = None, ForServiceName = None,
        PeriodStart = \<lparr>Year = 2023, Month = January, Day = 1\<rparr>,
        PeriodEnd = \<lparr>Year = 2023, Month = March, Day = 1\<rparr>\<rparr>
   \<and> list_all (sub_on_day 1)
       [\<lparr>ID = ''a'', ServiceName = ''tv'', Price = 100, UserID = ''u'',
        StartMonth = \<lparr>Year = 2023, Month = January, Day = 1\<rparr>, EndMonth = None\<rparr>]
   \<and> Service_Sum
     (listing_repo [\<lparr>ID = ''a'', ServiceName = ''tv'', Price = 100, UserID = ''u'',
        StartMonth = \<lparr>Year = 2023, Month = January, Day = 1\<rparr>, EndMonth = None\<rparr>])
     \<lparr>ForUserID = None, ForServiceName = None,
        PeriodStart = \<lparr>Year = 2023, Month = January, Day = 1\<rparr>,
        PeriodEnd = \<lparr>Year = 2023, Month = March, Day = 1\<rparr>\<rparr> () = (Inr 300, ())"
proof -
  let ?sub = "\<lparr>ID = ''a'', ServiceName = ''tv'', Price = 100, UserID = ''u'',
        StartMonth = \<lparr>Year = 2023, Month = January, Day = 1\<rparr>, EndMonth = None\<rparr>"
  let ?f = "\<lparr>ForUserID = None, ForServiceName = None,
        PeriodStart = \<lparr>Year = 2023, Month = January, Day = 1\<rparr>,
        PeriodEnd = \<lparr>Year = 2023, Month = March, Day = 1\<rparr>\<rparr>"
  have l: "ListSubscriptions (listing_repo [?sub]) (summary_listFilter ?f) () = (Inr [?sub], ())"
    by (simp add: listing_repo_def)
  have fd: "filter_on_day 1 ?f"
    by (simp add: filter_on_day_def)
  have sd: "list_all (sub_on_day 1) [?sub]"
    by (simp add: sub_on_day_def)
  have t: "spec_total ?f [?sub] = 300"
    by (simp add: spec_total_def spec_contribution_def spec_monthsOverlap_def
        spec_overlapStart_def spec_effectiveEnd_def month_value_def)
  from Service_Sum_total [OF l fd sd]
  have "- (2 ^ 63) \<le> spec_total ?f [?sub] \<and> spec_total ?f [?sub] < 2 ^ 63 \<longrightarrow>
         Service_Sum (listing_repo [?sub]) ?f () = (Inr (spec_total ?f [?sub]), ())"
    by blast
  then have r: "Service_Sum (listing_repo [?sub]) ?f () = (Inr 300, ())"
    by (simp add: t)
  show ?thesis using l fd sd r by blast
qed

text \<open>
  C10, as stated, fails: Go's \<open>int\<close> wraps around. One candidate of price \<open>2^62\<close> that
  overlaps the window by two months makes \<open>Sum\<close> return \<open>-2^63\<close>.
\<close>

theorem Service_Sum_negative_total:
  "0 \<le> Price
     \<lparr>ID = ''a'', ServiceName = ''tv'', Price = 4611686018427387904, UserID = ''u'',
        StartMonth = \<lparr>Year = 2023, Month = January, Day = 1\<rparr>, EndMonth = None\<rparr>
   \<and> Service_Sum
     (listing_repo [\<lparr>ID = ''a'', ServiceName = ''tv'', Price = 4611686018427387904, UserID = ''u'',
        StartMonth = \<lparr>Year = 2023, Month = January, Day = 1\<rparr>, EndMonth = None\<rparr>])
     \<lparr>ForUserID = None, ForServiceName = None,
        PeriodStart = \<lparr>Year = 2023, Month = January, Day = 1\<rparr>,
        PeriodEnd = \<lparr>Year = 2023, Month = February, Day = 1\<rparr>\<rparr> ()
     = (Inr (- 9223372036854775808), ())"
  by (simp add: Service_Sum_def listing_repo_def maxTime_def After_def Before_def
      monthsBetween_def int64_def Let_def)

text \<open>
  C10, amended. For every summary filter and every candidate list of non-negative prices
  whose exact total \<open>exact_total\<close> (the sum of price times month count over the candidates
  that are not skipped) is below \<open>2^63\<close>, \<open>Sum\<close> returns that total, and it is
  non-negative.
\<close>

theorem Service_Sum_nonneg:
  assumes "ListSubscriptions repo (summary_listFilter input) st = (Inr subs, st')"
    and "list_all (\<lambda>s. 0 \<le> Price s) subs"
    and "exact_total input subs < 2 ^ 63"
  shows "\<exists>tot. Service_Sum repo input st = (Inr tot, st') \<and> 0 \<le> tot \<and> tot = exact_total input subs"
proof -
  have nn: "0 \<le> exact_total input subs"
    using assms(2) by (rule exact_total_nonneg)
  have "int64 0 = 0" by (simp add: int64_def)
  then have "sum_loop input subs 0 = int64 (exact_total input subs)"
    using sum_loop_exact [of 0 input subs] by simp
  also have "\<dots> = exact_total input subs"
    using nn assms(3) by (simp add: int64_id)
  finally show ?thesis
    using assms(1) nn by (simp add: Service_Sum_def)
qed

theorem Service_Sum_nonneg_witness:
  "list_all (\<lambda>s. 0 \<le> Price s)
     [\<lparr>ID = ''a'', ServiceName = ''tv'', Price = 50, UserID = ''u'',
        StartMonth = \<lparr>Year = 2023, Month = June, Day = 1\<rparr>,
        EndMonth = Some \<lparr>Year = 2023, Month = August, Day = 1\<rparr>\<rparr>]
   \<and> Service_Sum
     (listing_repo [\<lparr>ID = ''a'', ServiceName = ''tv'', Price = 50, UserID = ''u'',
        StartMonth = \<lparr>Year = 2023, Month = June, Day = 1\<rparr>,
        EndMonth = Some \<lparr>Year = 2023, Month = August, Day = 1\<rparr>\<rparr>])
     \<lparr>ForUserID = None, ForServiceName = None,
        PeriodStart = \<lparr>Year = 2023, Month = January, Day = 1\<rparr>,
        PeriodEnd = \<lparr>Year = 2023, Month = December, Day = 1\<rparr>\<rparr> () = (Inr 150, ())"
proof -
  let ?sub = "\<lparr>ID = ''a'', ServiceName = ''tv'', Price = 50, UserID = ''u'',
        StartMonth = \<lparr>Year = 2023, Month = June, Day = 1\<rparr>,
        EndMonth = Some \<lparr>Year = 2023, Month = August, Day = 1\<rparr>\<rparr>"
  let ?f = "\<lparr>ForUserID = None, ForServiceName = None,
        PeriodStart = \<lparr>Year = 2023, Month = January, Day = 1\<rparr>,
        PeriodEnd = \<lparr>Year = 2023, Month = December, Day = 1\<rparr>\<rparr>"
  have l: "ListSubscriptions (listing_repo [?sub]) (summary_listFilter ?f) () = (Inr [?sub], ())"
    by (simp add: listing_repo_def)
  have p: "list_all (\<lambda>s. 0 \<le> Price s) [?sub]" by simp
  have t: "exact_total ?f [?sub] = 150"
    by (simp add: exact_total_def exact_contribution_def skipped_def months_of_def
        overlapStart_of_def subEnd_of_def maxTime_def monthsBetween_def After_def Before_def
        Let_def)
  then have b: "exact_total ?f [?sub] < 2 ^ 63" by simp
  from Service_Sum_nonneg [OF l p b]
  have r: "Service_Sum (listing_repo [?sub]) ?f () = (Inr 150, ())"
    by (auto simp: t)
  show ?thesis by (rule conjI [OF p r])
qed

subsection \<open>Errors of the repository\<close>

text \<open>
  C8. Whatever error the repository call of a service operation returns, the operation
  returns that same error value, unchanged and unwrapped, and no success result: this
  holds for \<open>Create\<close>, \<open>Get\<close>, \<open>Update\<close>, \<open>Delete\<close>, \<open>List\<close> and \<open>Sum\<close>, for
  \<open>ErrNotFound\<close> as for every other error.
\<close>

theorem Service_returns_repository_errors:
  "(CreateSubscription repo cin st = (Inl err, st') \<longrightarrow>
      Service_Create repo cin st = (Inl err, st'))
   \<and> (GetSubscription repo sid st = (Inl err, st') \<longrightarrow>
      Service_Get repo sid st = (Inl err, st'))
   \<and> (UpdateSubscription repo sid uin st = (Inl err, st') \<longrightarrow>
      Service_Update repo sid uin st = (Inl err, st'))
   \<and> (DeleteSubscription repo sid st = (Inl err, st') \<longrightarrow>
      Service_Delete repo sid st = (Inl err, st'))
   \<and> (ListSubscriptions repo flt st = (Inl err, st') \<longrightarrow>
      Service_List repo flt st = (Inl err, st'))
   \<and> (ListSubscriptions repo (summary_listFilter sumin) st = (Inl err, st') \<longrightarrow>
      Service_Sum repo sumin st = (Inl err, st'))"
  by (simp add: Service_Create_def Service_Get_def Service_Update_def Service_Delete_def
      Service_List_def Service_Sum_def)

theorem Service_returns_repository_errors_witness:
  "Service_Create (failing_repo (Wrapped ''storage.postgresql.CreateSubscription'' (DriverError ''down'')))
      \<lparr>NewServiceName = ''tv'', NewPrice = 5, NewUserID = ''u'',
       NewStartMonth = \<lparr>Year = 2023, Month = January, Day = 1\<rparr>, NewEndMonth = None\<rparr> ()
     = (Inl (Wrapped ''storage.postgresql.CreateSubscription'' (DriverError ''down'')), ())
   \<and> Service_Get (failing_repo ErrNotFound) ''a'' () = (Inl ErrNotFound, ())
   \<and> Service_Update (failing_repo ErrNotFound) ''a''
      \<lparr>SetServiceName = ''tv'', SetPrice = 5,
       SetStartMonth = \<lparr>Year = 2023, Month = January, Day = 1\<rparr>, SetEndMonth = None\<rparr> ()
     = (Inl ErrNotFound, ())
   \<and> Service_Delete (failing_repo ErrNotFound) ''a'' () = (Inl ErrNotFound, ())
   \<and> Service_List (failing_repo (DriverError ''down''))
      \<lparr>ByUserID = None, ByServiceName = None, StartMonthFrom = None, StartMonthTo = None,
       ActivePeriodFrom = None, ActivePeriodTo = None, Limit = 0, Offset = 0\<rparr> ()
     = (Inl (DriverError ''down''), ())
   \<and> Service_Sum (failing_repo (DriverError ''down''))
      \<lparr>ForUserID = None, ForServiceName = None,
       PeriodStart = \<lparr>Year = 2023, Month = January, Day = 1\<rparr>,
       PeriodEnd = \<lparr>Year = 2023, Month = March, Day = 1\<rparr>\<rparr> ()
     = (Inl (DriverError ''down''), ())"
  using
    Service_returns_repository_errors
      [of "failing_repo (Wrapped ''storage.postgresql.CreateSubscription'' (DriverError ''down''))"
          "\<lparr>NewServiceName = ''tv'', NewPrice = 5, NewUserID = ''u'',
            NewStartMonth = \<lparr>Year = 2023, Month = January, Day = 1\<rparr>, NewEndMonth = None\<rparr>"
          "()" "Wrapped ''storage.postgresql.CreateSubscription'' (DriverError ''down'')" "()"]
    Service_returns_repository_errors
      [of "failing_repo ErrNotFound" _ "()" ErrNotFound "()" "''a''"
          "\<lparr>SetServiceName = ''tv'', SetPrice = 5,
            SetStartMonth = \<lparr>Year = 2023, Month = January, Day = 1\<rparr>, SetEndMonth = None\<rparr>"]
    Service_returns_repository_errors
      [of "failing_repo (DriverError ''down'')" _ "()" "DriverError ''down''" "()" _ _
          "\<lparr>ByUserID = None, ByServiceName = None, StartMonthFrom = None, StartMonthTo = None,
            ActivePeriodFrom = None, ActivePeriodTo = None, Limit = 0, Offset = 0\<rparr>"
          "\<lparr>ForUserID = None, ForServiceName = None,
            PeriodStart = \<lparr>Year = 2023, Month = January, Day = 1\<rparr>,
            PeriodEnd = \<lparr>Year = 2023, Month = March, Day = 1\<rparr>\<rparr>"]
  by (simp add: failing_repo_def)

subsection \<open>Day of the month\<close>

lemma After_aligned:
  "Day a = d \<Longrightarrow> Day b = d \<Longrightarrow> Day a' = d' \<Longrightarrow> Day b' = d' \<Longrightarrow>
   same_month a a' \<Longrightarrow> same_month b b' \<Longrightarrow> After a b = After a' b'"
  by (auto simp: After_def same_month_def)

lemma Before_aligned:
  "Day a = d \<Longrightarrow> Day b = d \<Longrightarrow> Day a' = d' \<Longrightarrow> Day b' = d' \<Longrightarrow>
   same_month a a' \<Longrightarrow> same_month b b' \<Longrightarrow> Before a b = Before a' b'"
  by (auto simp: Before_def same_month_def)

lemma monthsBetween_same_month:
  "same_month a a' \<Longrightarrow> same_month b b' \<Longrightarrow> monthsBetween a b = monthsBetween a' b'"
  by (simp add: monthsBetween_def same_month_def)

lemma overlapStart_aligned:
  assumes "filter_on_day d f" "filter_on_day d' f'" "same_months_filter f f'"
    and "sub_on_day d s" "sub_on_day d' s'" "same_months_sub s s'"
  shows "Day (overlapStart_of f s) = d \<and> Day (overlapStart_of f' s') = d' \<and>
         same_month (overlapStart_of f s) (overlapStart_of f' s')"
proof -
  have "After (StartMonth s) (PeriodStart f) = After (StartMonth s') (PeriodStart f')"
    using assms
    by (intro After_aligned [of _ d _ _ d'])
       (simp_all add: filter_on_day_def sub_on_day_def same_months_filter_def same_months_sub_def)
  then show ?thesis
    using assms
    by (simp add: overlapStart_of_def maxTime_def filter_on_day_def sub_on_day_def
        same_months_filter_def same_months_sub_def)
qed

lemma subEnd_aligned:
  assumes "filter_on_day d f" "filter_on_day d' f'" "same_months_filter f f'"
    and "sub_on_day d s" "sub_on_day d' s'" "same_months_sub s s'"
  shows "Day (subEnd_of f s) = d \<and> Day (subEnd_of f' s') = d' \<and>
         same_month (subEnd_of f s) (subEnd_of f' s')"
proof (cases "EndMonth s")
  case None
  with assms(6) have "EndMonth s' = None"
    by (simp add: same_months_sub_def)
  with None assms show ?thesis
    by (simp add: subEnd_of_def filter_on_day_def same_months_filter_def)
next
  case (Some e)
  with assms(6) obtain e' where e': "EndMonth s' = Some e'" and sm: "same_month e e'"
    by (auto simp: same_months_sub_def option_rel_Some1)
  have "Before e (PeriodEnd f) = Before e' (PeriodEnd f')"
    using assms Some e' sm
    by (intro Before_aligned [of _ d _ _ d'])
       (simp_all add: filter_on_day_def sub_on_day_def same_months_filter_def)
  then show ?thesis
    using assms Some e' sm
    by (simp add: subEnd_of_def filter_on_day_def sub_on_day_def same_months_filter_def)
qed

lemma iteration_aligned:
  assumes "filter_on_day d f" "filter_on_day d' f'" "same_months_filter f f'"
    and "sub_on_day d s" "sub_on_day d' s'" "same_months_sub s s'"
  shows "skipped f s = skipped f' s' \<and> months_of f s = months_of f' s'"
proof -
  note a = overlapStart_aligned [OF assms] and b = subEnd_aligned [OF assms]
  have "After (overlapStart_of f s) (subEnd_of f s)
        = After (overlapStart_of f' s') (subEnd_of f' s')"
    using a b by (intro After_aligned [of _ d _ _ d']) simp_all
  moreover have "monthsBetween (overlapStart_of f s) (subEnd_of f s)
        = monthsBetween (overlapStart_of f' s') (subEnd_of f' s')"
    using a b by (intro monthsBetween_same_month) simp_all
  ultimately show ?thesis by (simp add: skipped_def months_of_def)
qed

text \<open>
  C2, amended. \<open>monthsBetween\<close> reads only the year and the month of its arguments. The
  comparisons of \<open>Sum\<close> (\<open>maxTime\<close>, \<open>Before\<close>, \<open>After\<close>) compare whole dates; they
  give the same answers for two inputs that agree month by month when, within each
  input, every date falls on one common day of the month (as the first-of-month values
  of the boundary do). For such inputs \<open>Sum\<close> skips the same candidates, counts the same
  months for each and returns the same total.
\<close>

theorem Sum_day_aligned:
  assumes "filter_on_day d f" "filter_on_day d' f'" "same_months_filter f f'"
    and "list_all2 (\<lambda>s s'. sub_on_day d s \<and> sub_on_day d' s' \<and> same_months_sub s s') subs subs'"
  shows "map (skipped f) subs = map (skipped f') subs'
    \<and> map (months_of f) subs = map (months_of f') subs'
    \<and> sum_loop f subs tot = sum_loop f' subs' tot
    \<and> (\<forall>a a' b b'. same_month a a' \<and> same_month b b' \<longrightarrow>
          monthsBetween a b = monthsBetween a' b')"
  using assms(4)
proof (induction subs subs' arbitrary: tot rule: list_all2_induct)
  case Nil
  then show ?case by (simp add: monthsBetween_same_month)
next
  case (Cons s subs s' subs')
  from Cons.hyps(1) have it: "skipped f s = skipped f' s' \<and> months_of f s = months_of f' s'"
    using iteration_aligned [OF assms(1-3)] by blast
  from Cons.hyps(1) have pr: "Price s = Price s'"
    by (simp add: same_months_sub_def)
  show ?case
    using it pr Cons.IH by (simp add: sum_loop_Cons del: sum_loop.simps)
qed

text \<open>
  C2, as stated, fails: the comparisons look at the day. With the window 2023-01-01 ..
  2023-06-01, an open-ended subscription of price 100 starting 2023-06-01 is counted for
  one month, and the same subscription starting 2023-06-02 (the same calendar month) is
  skipped.
\<close>

theorem Sum_day_of_month_matters:
  "same_months_filter
     \<lparr>ForUserID = None, ForServiceName = None,
      PeriodStart = \<lparr>Year = 2023, Month = January, Day = 1\<rparr>,
      PeriodEnd = \<lparr>Year = 2023, Month = June, Day = 1\<rparr>\<rparr>
     \<lparr>ForUserID = None, ForServiceName = None,
      PeriodStart = \<lparr>Year = 2023, Month = January, Day = 1\<rparr>,
      PeriodEnd = \<lparr>Year = 2023, Month = June, Day = 1\<rparr>\<rparr>
   \<and> same_months_sub
     \<lparr>ID = ''a'', ServiceName = ''tv'', Price = 100, UserID = ''u'',
      StartMonth = \<lparr>Year = 2023, Month = June, Day = 1\<rparr>, EndMonth = None\<rparr>
     \<lparr>ID = ''a'', ServiceName = ''tv'', Price = 100, UserID = ''u'',
      StartMonth = \<lparr>Year = 2023, Month = June, Day = 2\<rparr>, EndMonth = None\<rparr>
   \<and> \<not> skipped
     \<lparr>ForUserID = None, ForServiceName = None,
      PeriodStart = \<lparr>Year = 2023, Month = January, Day = 1\<rparr>,
      PeriodEnd = \<lparr>Year = 2023, Month = June, Day = 1\<rparr>\<rparr>
     \<lparr>ID = ''a'', ServiceName = ''tv'', Price = 100, UserID = ''u'',
      StartMonth = \<lparr>Year = 2023, Month = June, Day = 1\<rparr>, EndMonth = None\<rparr>
   \<and> skipped
     \<lparr>ForUserID = None, ForServiceName = None,
      PeriodStart = \<lparr>Year = 2023, Month = January, Day = 1\<rparr>,
      PeriodEnd = \<lparr>Year = 2023, Month = June, Day = 1\<rparr>\<rparr>
     \<lparr>ID = ''a'', ServiceName = ''tv'', Price = 100, UserID = ''u'',
      StartMonth = \<lparr>Year = 2023, Month = June, Day = 2\<rparr>, EndMonth = None\<rparr>
   \<and> sum_loop
     \<lparr>ForUserID = None, ForServiceName = None,
      PeriodStart = \<lparr>Year = 2023, Month = January, Day = 1\<rparr>,
      PeriodEnd = \<lparr>Year = 2023, Month = June, Day = 1\<rparr>\<rparr>
     [\<lparr>ID = ''a'', ServiceName = ''tv'', Price = 100, UserID = ''u'',
      StartMonth = \<lparr>Year = 2023, Month = June, Day = 1\<rparr>, EndMonth = None\<rparr>] 0 = 100
   \<and> sum_loop
     \<lparr>ForUserID = None, ForServiceName = None,
      PeriodStart = \<lparr>Year = 2023, Month = January, Day = 1\<rparr>,
      PeriodEnd = \<lparr>Year = 2023, Month = June, Day = 1\<rparr>\<rparr>
     [\<lparr>ID = ''a'', ServiceName = ''tv'', Price = 100, UserID = ''u'',
      StartMonth = \<lparr>Year = 2023, Month = June, Day = 2\<rparr>, EndMonth = None\<rparr>] 0 = 0"
  by (simp add: same_months_filter_def same_months_sub_def same_month_def skipped_def
      overlapStart_of_def subEnd_of_def maxTime_def After_def Before_def
      monthsBetween_def int64_def Let_def)

theorem Sum_day_aligned_witness:
  "filter_on_day 1
     \<lparr>ForUserID = None, ForServiceName = None,
      PeriodStart = \<lparr>Year = 2023, Month = January, Day = 1\<rparr>,
      PeriodEnd = \<lparr>Year = 2023, Month = June, Day = 1\<rparr>\<rparr>
   \<and> filter_on_day 15
     \<lparr>ForUserID = None, ForServiceName = None,
      PeriodStart = \<lparr>Year = 2023, Month = January, Day = 15\<rparr>,
      PeriodEnd = \<lparr>Year = 2023, Month = June, Day = 15\<rparr>\<rparr>
   \<and> sub_on_day 1
     \<lparr>ID = ''a'', ServiceName = ''tv'', Price = 100, UserID = ''u'',
      StartMonth = \<lparr>Year = 2023, Month = May, Day = 1\<rparr>, EndMonth = None\<rparr>
   \<and> sub_on_day 15
     \<lparr>ID = ''a'', ServiceName = ''tv'', Price = 100, UserID = ''u'',
      StartMonth = \<lparr>Year = 2023, Month = May, Day = 15\<rparr>, EndMonth = None\<rparr>
   \<and> sum_loop
     \<lparr>ForUserID = None, ForServiceName = None,
      PeriodStart = \<lparr>Year = 2023, Month = January, Day = 15\<rparr>,
      PeriodEnd = \<lparr>Year = 2023, Month = June, Day = 15\<rparr>\<rparr>
     [\<lparr>ID = ''a'', ServiceName = ''tv'', Price = 100, UserID = ''u'',
      StartMonth = \<lparr>Year = 2023, Month = May, Day = 15\<rparr>, EndMonth = None\<rparr>] 0
     = sum_loop
     \<lparr>ForUserID = None, ForServiceName = None,
      PeriodStart = \<lparr>Year = 2023, Month = January, Day = 1\<rparr>,
      PeriodEnd = \<lparr>Year = 2023, Month = June, Day = 1\<rparr>\<rparr>
     [\<lparr>ID = ''a'', ServiceName = ''tv'', Price = 100, UserID = ''u'',
      StartMonth = \<lparr>Year = 2023, Month = May, Day = 1\<rparr>, EndMonth = None\<rparr>] 0"
proof -
  let ?f = "\<lparr>ForUserID = None, ForServiceName = None,
      PeriodStart = \<lparr>Year = 2023, Month = January, Day = 1\<rparr>,
      PeriodEnd = \<lparr>Year = 2023, Month = June, Day = 1\<rparr>\<rparr>"
  let ?f' = "\<lparr>ForUserID = None, ForServiceName = None,
      PeriodStart = \<lparr>Year = 2023, Month = January, Day = 15\<rparr>,
      PeriodEnd = \<lparr>Year = 2023, Month = June, Day = 15\<rparr>\<rparr>"
  let ?s = "\<lparr>ID = ''a'', ServiceName = ''tv'', Price = 100, UserID = ''u'',
      StartMonth = \<lparr>Year = 2023, Month = May, Day = 1\<rparr>, EndMonth = None\<rparr>"
  let ?s' = "\<lparr>ID = ''a'', ServiceName = ''tv'', Price = 100, UserID = ''u'',
      StartMonth = \<lparr>Year = 2023, Month = May, Day = 15\<rparr>, EndMonth = None\<rparr>"
  have a: "filter_on_day 1 ?f" and b: "filter_on_day 15 ?f'"
    by (simp_all add: filter_on_day_def)
  have c: "same_months_filter ?f ?f'"
    by (simp add: same_months_filter_def same_month_def)
  have d: "sub_on_day 1 ?s" and e: "sub_on_day 15 ?s'"
    by (simp_all add: sub_on_day_def)
  have l: "list_all2 (\<lambda>s s'. sub_on_day 1 s \<and> sub_on_day 15 s' \<and> same_months_sub s s')
      [?s] [?s']"
    using d e by (simp add: same_months_sub_def same_month_def)
  from Sum_day_aligned [OF a b c l, of 0]
  have r: "sum_loop ?f' [?s'] 0 = sum_loop ?f [?s] 0"
    by simp
  show ?thesis
    using a b d e r by blast
qed

subsection \<open>Identifiers and text of the table\<close>

lemma uuid_in_empty: "uuid_in [] = None"
  by (simp add: uuid_in_def upt_rec)

lemma uuid_text_nonempty: "uuid_text u \<Longrightarrow> u \<noteq> []"
  by (auto simp: uuid_text_def uuid_in_empty)

lemma uuid_text_accepted: "uuid_text u \<Longrightarrow> \<not> uuid_refused u"
  by (frule uuid_text_nonempty) (simp add: uuid_refused_def uuid_Value_def uuid_text_def)

lemma uuid_text_equals: "uuid_text u \<Longrightarrow> uuid_equals c u = same_uuid u c"
  by (frule uuid_text_nonempty) (simp add: uuid_equals_def uuid_Value_def)

lemma uuid_text_id_matches: "uuid_text sid \<Longrightarrow> id_matches sid = (\<lambda>r. same_uuid sid (ID r))"
  by (rule ext) (simp add: id_matches_def uuid_text_equals)

lemma uuid_in_sample:
  "uuid_in ''6f1c2a9e-0b7d-4c55-9e3a-2f8d1b4c7a10'' = Some ''6f1c2a9e0b7d4c559e3a2f8d1b4c7a10''"
  by (simp add: uuid_in_def upt_rec isxdigit_def digit_lower_def ascii_lower_def char_of_eq_iff)

lemma uuid_in_other:
  "uuid_in ''ffffffff-ffff-4fff-8fff-ffffffffffff'' = Some ''ffffffffffff4fff8fffffffffffffff''"
  by (simp add: uuid_in_def upt_rec isxdigit_def digit_lower_def ascii_lower_def char_of_eq_iff)


lemma text_ok_Yandex: "text_ok ''Yandex Plus''"
  by (simp add: text_ok_def DecodeRune_def RuneError_def)

lemma text_ok_Kinopoisk: "text_ok ''Kinopoisk''"
  by (simp add: text_ok_def DecodeRune_def RuneError_def)

subsection \<open>Listing with the overlap filter\<close>




lemma holds_name: "holds (ServiceNameEq n) r = (ServiceName r = n)"
  by simp




text \<open>
  Between dates on one day of the month, as the first-of-month values of the boundary
  are, the overlap predicate on dates is the one on month values.
\<close>

lemma spec_overlaps_months:
  assumes "Day (StartMonth s) = d" and "Day a = d" and "Day b = d"
    and "case EndMonth s of None \<Rightarrow> True | Some e \<Rightarrow> Day e = d"
  shows "spec_overlaps a b s \<longleftrightarrow>
         month_value (StartMonth s) \<le> month_value b \<and>
         (case EndMonth s of None \<Rightarrow> True | Some e \<Rightarrow> month_value a \<le> month_value e)"
  using assms
  by (auto simp: spec_overlaps_def After_month_value Before_month_value not_less
      split: option.splits)





lemma refused_not_accepted:
  assumes "\<not> filter_accepted flt"
  shows "list_ex refused (list_conditions flt)"
proof -
  from assms consider
    (user) u where "ByUserID flt = Some u" "u \<noteq> []" "\<not> uuid_text u"
    | (name) n where "ByServiceName flt = Some n" "\<not> text_ok n"
    | (lower) t where "StartMonthFrom flt = Some t" "\<not> date_ok t"
    | (upper) t where "StartMonthTo flt = Some t" "\<not> date_ok t"
    | (period) a b where "ActivePeriodFrom flt = Some a" "ActivePeriodTo flt = Some b"
        "\<not> date_ok a \<or> \<not> date_ok b"
    by (auto simp: filter_accepted_def null_date_ok_def split: option.splits if_splits)
  then show ?thesis
  proof cases
    case user
    then show ?thesis
      by (simp add: list_conditions_def uuid_refused_def uuid_Value_def uuid_text_def)
  next
    case name
    then show ?thesis by (simp add: list_conditions_def)
  next
    case lower
    then show ?thesis by (simp add: list_conditions_def)
  next
    case upper
    then show ?thesis by (simp add: list_conditions_def)
  next
    case period
    then show ?thesis by (auto simp: list_conditions_def)
  qed
qed

text \<open>A filter with a parameter that its column type refuses fails the query.\<close>

lemma ListSubscriptions_refused:
  "outage db = None \<Longrightarrow> \<not> filter_accepted flt \<Longrightarrow>
   Storage_ListSubscriptions flt db =
     (Inl (Wrapped ''storage.postgresql.ListSubscriptions'' (DriverError ''invalid parameter'')),
      db)"
  by (simp add: Storage_ListSubscriptions_def query_select_list_def refused_not_accepted)








subsection \<open>Update, delete and the stored rows\<close>

lemma filter_unique:
  "distinct (map k rs) \<Longrightarrow> r \<in> set rs \<Longrightarrow> filter (\<lambda>x. k x = k r) rs = [r]"
proof (induction rs)
  case Nil
  then show ?case by simp
next
  case (Cons x rs)
  show ?case
  proof (cases "x = r")
    case True
    with Cons.prems have "k r \<notin> k ` set rs" by simp
    then have "\<forall>y \<in> set rs. k y \<noteq> k r" by (metis imageI)
    then have "filter (\<lambda>x. k x = k r) rs = []" by (simp add: filter_empty_conv)
    with True show ?thesis by simp
  next
    case False
    with Cons.prems have "r \<in> set rs" and "k x \<noteq> k r" by auto
    with Cons show ?thesis by simp
  qed
qed

lemma same_uuid_stored:
  assumes "primary_key db" "r \<in> set (subscriptions db)" "same_uuid sid (ID r)"
    "x \<in> set (subscriptions db)"
  shows "same_uuid sid (ID x) \<longleftrightarrow> x = r"
proof
  assume "same_uuid sid (ID x)"
  with assms(3) have "uuid_in (ID x) = uuid_in (ID r)"
    by (simp add: same_uuid_def)
  with assms(1,2,4) show "x = r"
    by (auto simp: primary_key_def distinct_map inj_on_def)
next
  assume "x = r"
  with assms(3) show "same_uuid sid (ID x)" by simp
qed

lemma filter_same_uuid:
  assumes "primary_key db" "r \<in> set (subscriptions db)" "same_uuid sid (ID r)"
  shows "filter (\<lambda>x. same_uuid sid (ID x)) (subscriptions db) = [r]"
proof -
  have "filter (\<lambda>x. same_uuid sid (ID x)) (subscriptions db)
        = filter (\<lambda>x. uuid_in (ID x) = uuid_in (ID r)) (subscriptions db)"
  proof (rule filter_cong [OF refl])
    fix x assume "x \<in> set (subscriptions db)"
    from assms(3) have "uuid_in sid \<noteq> None" and "uuid_in sid = uuid_in (ID r)"
      unfolding same_uuid_def by blast+
    then show "same_uuid sid (ID x) = (uuid_in (ID x) = uuid_in (ID r))"
      unfolding same_uuid_def by metis
  qed
  also have "\<dots> = [r]"
    using assms(1,2) filter_unique [of "\<lambda>x. uuid_in (ID x)" "subscriptions db" r]
    by (simp add: primary_key_def)
  finally show ?thesis .
qed

text \<open>
  C6, as stated, fails: the table refuses some inputs. Updating the stored row of
  \<open>sample_db\<close> with the price \<open>-1\<close> violates \<open>CHECK (price >= 0)\<close>; \<open>Update\<close> fails with
  a wrapped driver error and the row keeps its values.
\<close>

theorem Update_refused_by_check:
  "Service_Get Storage ''6f1c2a9e-0b7d-4c55-9e3a-2f8d1b4c7a10'' sample_db
     = (Inr sample_row, sample_db)
   \<and> Service_Update Storage ''6f1c2a9e-0b7d-4c55-9e3a-2f8d1b4c7a10''
       \<lparr>SetServiceName = ''Yandex Plus'', SetPrice = - 1,
        SetStartMonth = \<lparr>Year = 2023, Month = January, Day = 1\<rparr>,
        SetEndMonth = None\<rparr> sample_db
     = (Inl (Wrapped ''storage.postgresql.UpdateSubscription''
               (DriverError ''check constraint violated'')), sample_db)"
  by (simp add: Service_Get_def Service_Update_def Storage_def Storage_GetSubscription_def
      Storage_UpdateSubscription_def query_select_id_def query_update_def id_matches_def
      uuid_refused_def uuid_equals_def same_uuid_def uuid_in_sample text_ok_Yandex
      uuid_Value_def int4_def date_ok_def date_key_def null_date_ok_def row_checks_def
      set_columns_def sample_db_def sample_row_def)

text \<open>
  C6, amended. On a database that carries out the statement, with a primary key, and
  for an identifier that spells a uuid: for every stored subscription of that identifier
  and every \<open>UpdateInput\<close> that the table accepts (a service name that is text, a price
  from 0 to \<open>2^31 - 1\<close>, dates in the range of \<open>DATE\<close>, an end month absent or not
  before the start month), \<open>Update\<close> returns the record with the stored \<open>id\<close> and
  \<open>userId\<close> and the input's \<open>serviceName\<close>, \<open>price\<close>, \<open>startMonth\<close> and \<open>endMonth\<close>, and
  the table holds that record in place of the old one, every other row unchanged. For
  an identifier that no row has, and parameters that the column types accept, \<open>Update\<close>
  fails with \<open>ErrNotFound\<close> and nothing changes. An input with a parameter that its
  column type refuses, or, for a stored identifier, with values that a \<open>CHECK\<close> refuses,
  fails with a wrapped driver error and nothing changes.
\<close>

theorem Update_replaces:
  assumes pk: "primary_key db" and up: "outage db = None" and wf: "uuid_text sid"
  shows "(\<forall>r. r \<in> set (subscriptions db) \<and> same_uuid sid (ID r) \<and>
            update_binds input \<and> update_checks input \<longrightarrow>
          Service_Update Storage sid input db =
            (Inr \<lparr>ID = ID r, ServiceName = SetServiceName input, Price = SetPrice input,
                  UserID = UserID r, StartMonth = SetStartMonth input,
                  EndMonth = SetEndMonth input\<rparr>,
             db\<lparr>subscriptions :=
                  map (\<lambda>x. if x = r
                            then \<lparr>ID = ID r, ServiceName = SetServiceName input,
                                  Price = SetPrice input, UserID = UserID r,
                                  StartMonth = SetStartMonth input,
                                  EndMonth = SetEndMonth input\<rparr>
                            else x)
                    (subscriptions db)\<rparr>))
    \<and> (\<not> list_ex (\<lambda>r. same_uuid sid (ID r)) (subscriptions db) \<and> update_binds input \<longrightarrow>
          Service_Update Storage sid input db = (Inl ErrNotFound, db))
    \<and> (\<not> update_binds input \<or>
        list_ex (\<lambda>r. same_uuid sid (ID r)) (subscriptions db) \<and> \<not> update_checks input \<longrightarrow>
          (\<exists>cause. Service_Update Storage sid input db =
             (Inl (Wrapped ''storage.postgresql.UpdateSubscription'' (DriverError cause)), db)))"
proof (intro conjI allI impI)
  have acc: "\<not> uuid_refused sid"
    using wf by (rule uuid_text_accepted)
  have m: "id_matches sid = (\<lambda>r. same_uuid sid (ID r))"
    using wf by (rule uuid_text_id_matches)
  {
    fix r
    assume a: "r \<in> set (subscriptions db) \<and> same_uuid sid (ID r) \<and>
            update_binds input \<and> update_checks input"
    let ?new = "\<lparr>ID = ID r, ServiceName = SetServiceName input, Price = SetPrice input,
                  UserID = UserID r, StartMonth = SetStartMonth input,
                  EndMonth = SetEndMonth input\<rparr>"
    have f: "filter (id_matches sid) (subscriptions db) = [r]"
      using pk a by (simp add: m filter_same_uuid)
    have n: "set_columns input r = ?new"
      by (simp add: set_columns_def)
    have ok: "row_checks ?new"
      using a by (simp add: row_checks_def update_checks_def split: option.splits)
    have mp: "map (\<lambda>x. if id_matches sid x then set_columns input x else x) (subscriptions db)
         = map (\<lambda>x. if x = r then ?new else x) (subscriptions db)"
    proof (rule map_cong [OF refl])
      fix x assume x: "x \<in> set (subscriptions db)"
      from pk a x have "same_uuid sid (ID x) \<longleftrightarrow> x = r"
        by (simp add: same_uuid_stored)
      then show "(if id_matches sid x then set_columns input x else x)
            = (if x = r then ?new else x)"
        using n by (simp add: m)
    qed
    have "query_update input sid db = (Inr ?new, db\<lparr>subscriptions :=
            map (\<lambda>x. if x = r then ?new else x) (subscriptions db)\<rparr>)"
      using up a f ok acc by (simp add: query_update_def n mp update_binds_def)
    then show "Service_Update Storage sid input db =
              (Inr ?new, db\<lparr>subscriptions :=
                    map (\<lambda>x. if x = r then ?new else x) (subscriptions db)\<rparr>)"
      by (simp add: Service_Update_def Storage_def Storage_UpdateSubscription_def)
  }
  {
    assume a: "\<not> list_ex (\<lambda>r. same_uuid sid (ID r)) (subscriptions db) \<and> update_binds input"
    then have "filter (id_matches sid) (subscriptions db) = []"
      by (simp add: m filter_empty_conv list_ex_iff)
    then have "query_update input sid db = (Inl ErrNoRows, db)"
      using up a acc by (simp add: query_update_def update_binds_def)
    then show "Service_Update Storage sid input db = (Inl ErrNotFound, db)"
      by (simp add: Service_Update_def Storage_def Storage_UpdateSubscription_def)
  }
  {
    assume a: "\<not> update_binds input \<or>
        list_ex (\<lambda>r. same_uuid sid (ID r)) (subscriptions db) \<and> \<not> update_checks input"
    have "\<exists>cause. query_update input sid db = (Inl (DriverError cause), db)"
    proof (cases "update_binds input")
      case False
      then show ?thesis using up by (auto simp: query_update_def update_binds_def)
    next
      case True
      with a obtain r where r: "r \<in> set (subscriptions db)" "same_uuid sid (ID r)"
        and c: "\<not> update_checks input"
        by (auto simp: list_ex_iff)
      have f: "filter (id_matches sid) (subscriptions db) = [r]"
        using pk r by (simp add: m filter_same_uuid)
      from c have "\<not> row_checks (set_columns input r)"
        by (auto simp: row_checks_def set_columns_def update_checks_def split: option.splits)
      with True up f acc show ?thesis by (simp add: query_update_def update_binds_def)
    qed
    then show "\<exists>cause. Service_Update Storage sid input db =
               (Inl (Wrapped ''storage.postgresql.UpdateSubscription'' (DriverError cause)), db)"
      by (auto simp: Service_Update_def Storage_def Storage_UpdateSubscription_def)
  }
qed

theorem Update_replaces_witness:
  "primary_key sample_db \<and> outage sample_db = None
   \<and> uuid_text ''6f1c2a9e-0b7d-4c55-9e3a-2f8d1b4c7a10''
   \<and> uuid_text ''ffffffff-ffff-4fff-8fff-ffffffffffff''
   \<and> Service_Update Storage ''6f1c2a9e-0b7d-4c55-9e3a-2f8d1b4c7a10''
       \<lparr>SetServiceName = ''Kinopoisk'', SetPrice = 299,
        SetStartMonth = \<lparr>Year = 2024, Month = March, Day = 1\<rparr>,
        SetEndMonth = None\<rparr> sample_db
     = (Inr \<lparr>ID = ''6f1c2a9e-0b7d-4c55-9e3a-2f8d1b4c7a10'', ServiceName = ''Kinopoisk'',
             Price = 299, UserID = ''60601fee-2bf1-4721-ae6f-7636e79a0cba'',
             StartMonth = \<lparr>Year = 2024, Month = March, Day = 1\<rparr>, EndMonth = None\<rparr>,
        sample_db\<lparr>subscriptions :=
          [\<lparr>ID = ''6f1c2a9e-0b7d-4c55-9e3a-2f8d1b4c7a10'', ServiceName = ''Kinopoisk'',
             Price = 299, UserID = ''60601fee-2bf1-4721-ae6f-7636e79a0cba'',
             StartMonth = \<lparr>Year = 2024, Month = March, Day = 1\<rparr>, EndMonth = None\<rparr>]\<rparr>)
   \<and> Service_Update Storage ''ffffffff-ffff-4fff-8fff-ffffffffffff''
       \<lparr>SetServiceName = ''Kinopoisk'', SetPrice = 299,
        SetStartMonth = \<lparr>Year = 2024, Month = March, Day = 1\<rparr>,
        SetEndMonth = None\<rparr> sample_db
     = (Inl ErrNotFound, sample_db)
   \<and> (\<exists>cause. Service_Update Storage ''6f1c2a9e-0b7d-4c55-9e3a-2f8d1b4c7a10''
         \<lparr>SetServiceName = ''Kinopoisk'', SetPrice = 299,
          SetStartMonth = \<lparr>Year = 2024, Month = March, Day = 1\<rparr>,
          SetEndMonth = Some \<lparr>Year = 2024, Month = February, Day = 1\<rparr>\<rparr> sample_db
       = (Inl (Wrapped ''storage.postgresql.UpdateSubscription'' (DriverError cause)),
          sample_db))"
proof -
  have pk: "primary_key sample_db"
    by (simp add: primary_key_def sample_db_def sample_row_def uuid_text_def uuid_in_sample)
  have up: "outage sample_db = None"
    by (simp add: sample_db_def)
  have wf1: "uuid_text ''6f1c2a9e-0b7d-4c55-9e3a-2f8d1b4c7a10''"
    by (simp add: uuid_text_def uuid_in_sample)
  have wf2: "uuid_text ''ffffffff-ffff-4fff-8fff-ffffffffffff''"
    by (simp add: uuid_text_def uuid_in_other)
  let ?input = "\<lparr>SetServiceName = ''Kinopoisk'', SetPrice = 299,
        SetStartMonth = \<lparr>Year = 2024, Month = March, Day = 1\<rparr>,
        SetEndMonth = None\<rparr>"
  let ?late = "\<lparr>SetServiceName = ''Kinopoisk'', SetPrice = 299,
        SetStartMonth = \<lparr>Year = 2024, Month = March, Day = 1\<rparr>,
        SetEndMonth = Some \<lparr>Year = 2024, Month = February, Day = 1\<rparr>\<rparr>"
  have bi: "update_binds ?input"
    by (simp add: update_binds_def text_ok_Kinopoisk int4_def date_ok_def date_key_def
        null_date_ok_def)
  have ch: "update_checks ?input"
    by (simp add: update_checks_def)
  have nl: "\<not> update_checks ?late"
    by (simp add: update_checks_def Before_def)
  have st: "sample_row \<in> set (subscriptions sample_db)"
    by (simp add: sample_db_def)
  have same: "same_uuid ''6f1c2a9e-0b7d-4c55-9e3a-2f8d1b4c7a10'' (ID sample_row)"
    by (simp add: same_uuid_def sample_row_def uuid_in_sample)
  have ex: "list_ex (\<lambda>r. same_uuid ''6f1c2a9e-0b7d-4c55-9e3a-2f8d1b4c7a10'' (ID r))
              (subscriptions sample_db)"
    using same by (simp add: sample_db_def)
  have no: "\<not> list_ex (\<lambda>r. same_uuid ''ffffffff-ffff-4fff-8fff-ffffffffffff'' (ID r))
              (subscriptions sample_db)"
    by (simp add: sample_db_def sample_row_def same_uuid_def uuid_in_other uuid_in_sample)
  from Update_replaces [OF pk up wf1, of ?input] st same bi ch
  have "Service_Update Storage ''6f1c2a9e-0b7d-4c55-9e3a-2f8d1b4c7a10'' ?input sample_db =
        (Inr \<lparr>ID = ID sample_row,
              ServiceName = SetServiceName ?input, Price = SetPrice ?input,
              UserID = UserID sample_row, StartMonth = SetStartMonth ?input,
              EndMonth = SetEndMonth ?input\<rparr>,
         sample_db\<lparr>subscriptions :=
              map (\<lambda>x. if x = sample_row
                        then \<lparr>ID = ID sample_row,
                              ServiceName = SetServiceName ?input,
                              Price = SetPrice ?input, UserID = UserID sample_row,
                              StartMonth = SetStartMonth ?input,
                              EndMonth = SetEndMonth ?input\<rparr>
                        else x)
                (subscriptions sample_db)\<rparr>)"
    by blast
  then have a: "Service_Update Storage ''6f1c2a9e-0b7d-4c55-9e3a-2f8d1b4c7a10'' ?input sample_db
     = (Inr \<lparr>ID = ''6f1c2a9e-0b7d-4c55-9e3a-2f8d1b4c7a10'', ServiceName = ''Kinopoisk'',
             Price = 299, UserID = ''60601fee-2bf1-4721-ae6f-7636e79a0cba'',
             StartMonth = \<lparr>Year = 2024, Month = March, Day = 1\<rparr>, EndMonth = None\<rparr>,
        sample_db\<lparr>subscriptions :=
          [\<lparr>ID = ''6f1c2a9e-0b7d-4c55-9e3a-2f8d1b4c7a10'', ServiceName = ''Kinopoisk'',
             Price = 299, UserID = ''60601fee-2bf1-4721-ae6f-7636e79a0cba'',
             StartMonth = \<lparr>Year = 2024, Month = March, Day = 1\<rparr>, EndMonth = None\<rparr>]\<rparr>)"
    by (simp add: sample_db_def sample_row_def)
  from Update_replaces [OF pk up wf2, of ?input] no bi
  have b: "Service_Update Storage ''ffffffff-ffff-4fff-8fff-ffffffffffff'' ?input sample_db
     = (Inl ErrNotFound, sample_db)"
    by blast
  from Update_replaces [OF pk up wf1, of ?late] ex nl
  have c: "\<exists>cause. Service_Update Storage ''6f1c2a9e-0b7d-4c55-9e3a-2f8d1b4c7a10'' ?late
         sample_db
       = (Inl (Wrapped ''storage.postgresql.UpdateSubscription'' (DriverError cause)),
          sample_db)"
    by blast
  show ?thesis using pk up wf1 wf2 a b c by blast
qed

text \<open>
  An identifier that spells no uuid is refused when the statement binds it: the method
  fails with a wrapped driver error, not with \<open>ErrNotFound\<close>, and nothing changes. The
  identifier with U+0660 that \<open>Parse\<close> lets through is one.
\<close>

lemma Delete_refused_id:
  assumes "outage db = None" and "sid \<noteq> []" and "uuid_in sid = None"
  shows "Service_Delete Storage sid db
         = (Inl (Wrapped ''storage.postgresql.DeleteSubscription''
                   (DriverError ''invalid input syntax for type uuid'')), db)"
  using assms
  by (simp add: Service_Delete_def Storage_def Storage_DeleteSubscription_def exec_delete_def
      uuid_refused_def uuid_Value_def)

lemma Update_refused_id:
  assumes "outage db = None" and "update_binds input" and "sid \<noteq> []"
    and "uuid_in sid = None"
  shows "Service_Update Storage sid input db
         = (Inl (Wrapped ''storage.postgresql.UpdateSubscription''
                   (DriverError ''invalid input syntax for type uuid'')), db)"
  using assms
  by (simp add: Service_Update_def Storage_def Storage_UpdateSubscription_def query_update_def
      update_binds_def uuid_refused_def uuid_Value_def)

lemma uuid_in_malformed:
  "uuid_in ([CHR 0xD9, CHR 0xA0] @ ''000000-0000-0000-0000-000000000000'') = None"
  by (simp add: uuid_in_def upt_rec isxdigit_def)



subsection \<open>Parsing identifiers\<close>

text \<open>
  C9. \<open>Parse\<close> is meant to accept exactly the 36-character strings of hexadecimal digits
  with \<open>-\<close> at the indices 8, 13, 18 and 23. \<open>isHex\<close> asks \<open>unicode.IsDigit\<close>, which also
  holds for decimal digits outside ASCII: with U+0660 (ARABIC-INDIC DIGIT ZERO, two bytes
  in UTF-8) in the place of the first two characters, the 36-byte string below has 35
  characters, its first is no hexadecimal digit, and \<open>Parse\<close> accepts it and returns it.
\<close>

theorem Parse_accepts_non_hex_digit:
  assumes "Digit tabs 0x660" and "LowerCase tabs 0x660 = 0x660"
  shows "Parse tabs ([CHR 0xD9, CHR 0xA0] @ ''000000-0000-0000-0000-000000000000'')
         = Inr ([CHR 0xD9, CHR 0xA0] @ ''000000-0000-0000-0000-000000000000'')"
  using assms
  by (simp add: Parse_def strings_ToLower_def DecodeRune_def rune_size_def accept_lo_def
      accept_hi_def EncodeRune_def unicode_ToLower_def unicode_IsDigit_def isHex_def Let_def
      ascii_lower_def char_of_eq_iff)

theorem Parse_accepts_non_hex_digit_witness:
  "Digit arabic_indic_tables 0x660 \<and> LowerCase arabic_indic_tables 0x660 = 0x660
   \<and> Parse arabic_indic_tables ([CHR 0xD9, CHR 0xA0] @ ''000000-0000-0000-0000-000000000000'')
       = Inr ([CHR 0xD9, CHR 0xA0] @ ''000000-0000-0000-0000-000000000000'')"
proof -
  have d: "Digit arabic_indic_tables 0x660"
    by (simp add: arabic_indic_tables_def)
  have l: "LowerCase arabic_indic_tables 0x660 = 0x660"
    by (simp add: arabic_indic_tables_def)
  from Parse_accepts_non_hex_digit [OF d l] d l show ?thesis by blast
qed

subsection \<open>Parsing ASCII input\<close>

lemma zip_upt_Cons:
  "zip [i ..< i + length (b # bs)] (b # bs) = (i, b) # zip [Suc i ..< Suc i + length bs] bs"
proof -
  have "[i ..< i + length (b # bs)] = i # [Suc i ..< i + length (b # bs)]"
    by (rule upt_conv_Cons) simp
  moreover have "i + length (b # bs) = Suc i + length bs"
    by simp
  ultimately show ?thesis
    by (simp only: zip_Cons_Cons)
qed

lemma range_string_ascii:
  "list_all (\<lambda>b. b < 0x80) bs \<Longrightarrow> range_string i bs = zip [i ..< i + length bs] bs"
proof (induction bs arbitrary: i)
  case Nil
  then show ?case by simp
next
  case (Cons b bs)
  then have b: "b < 0x80" and rest: "list_all (\<lambda>b. b < 0x80) bs" by simp_all
  from b have d: "DecodeRune (b # bs) = (b, 1)"
    by (simp add: DecodeRune_def)
  have "range_string i (b # bs) = (i, b) # range_string (Suc i) bs"
    by (simp add: d)
  also have "\<dots> = (i, b) # zip [Suc i ..< Suc i + length bs] bs"
    by (simp add: Cons.IH [OF rest])
  also have "\<dots> = zip [i ..< i + length (b # bs)] (b # bs)"
    by (rule zip_upt_Cons [symmetric])
  finally show ?case .
qed

lemma parse_loop_Cons:
  "parse_loop tabs ((i, r) # rest) = (rune_ok tabs i r \<and> parse_loop tabs rest)"
  by (simp add: rune_ok_def)

lemma parse_loop_zip:
  "parse_loop tabs (zip [i ..< i + length bs] bs) =
     (\<forall>j < length bs. rune_ok tabs (i + j) (bs ! j))"
proof (induction bs arbitrary: i)
  case Nil
  then show ?case by simp
next
  case (Cons b bs)
  have "parse_loop tabs (zip [i ..< i + length (b # bs)] (b # bs))
        = (rune_ok tabs i b \<and> (\<forall>j < length bs. rune_ok tabs (Suc i + j) (bs ! j)))"
    by (simp only: zip_upt_Cons parse_loop_Cons Cons.IH)
  also have "\<dots> = (\<forall>j < length (b # bs). rune_ok tabs (i + j) ((b # bs) ! j))"
    by (simp add: All_less_Suc2)
  finally show ?case .
qed

lemma isHex_ascii:
  "b < 0x80 \<Longrightarrow>
   isHex tabs (ascii_lower b) =
     ((0x30 \<le> b \<and> b \<le> 0x39) \<or> (0x61 \<le> b \<and> b \<le> 0x66) \<or> (0x41 \<le> b \<and> b \<le> 0x46))"
  by (auto simp: isHex_def unicode_IsDigit_def ascii_lower_def)

lemma dash_ascii: "ascii_lower b = 0x2D \<longleftrightarrow> b = 0x2D"
  by (auto simp: ascii_lower_def)

lemma ascii_lower_ascii: "b < 0x80 \<Longrightarrow> ascii_lower b < 0x80"
  by (auto simp: ascii_lower_def)

lemma ascii_lower_idem: "ascii_lower (ascii_lower b) = ascii_lower b"
  by (auto simp: ascii_lower_def)

lemma of_char_eq_dash: "(of_char c :: nat) = 0x2D \<longleftrightarrow> c = CHR ''-''"
proof -
  have "(of_char c :: nat) = of_char CHR ''-'' \<longleftrightarrow> c = CHR ''-''"
    by (simp only: of_char_eq_iff)
  then show ?thesis by simp
qed

lemma ToLower_ascii:
  assumes "list_all (\<lambda>c. (of_char c :: nat) < 0x80) s"
  shows "strings_ToLower tabs s = spec_lowercased s"
    and "map of_char (strings_ToLower tabs s) = map ascii_lower (map of_char s)"
    and "list_all (\<lambda>c. (of_char c :: nat) < 0x80) (strings_ToLower tabs s)"
proof -
  from assms have a: "list_all (\<lambda>b. b < 0x80) (map of_char s :: nat list)"
    by (simp add: list_all_iff)
  then show l: "strings_ToLower tabs s = spec_lowercased s"
    by (simp add: strings_ToLower_def spec_lowercased_def Let_def comp_def)
  have small: "\<And>c. (of_char c :: nat) < 0x80 \<Longrightarrow> ascii_lower (of_char c) < 256"
    using ascii_lower_ascii by fastforce
  show m: "map of_char (strings_ToLower tabs s) = map ascii_lower (map of_char s)"
    unfolding l spec_lowercased_def using assms small
    by (auto simp: list_all_iff)
  show "list_all (\<lambda>c. (of_char c :: nat) < 0x80) (strings_ToLower tabs s)"
  proof -
    have "list_all (\<lambda>b. b < 0x80) (map of_char (strings_ToLower tabs s) :: nat list)"
      unfolding m using a by (auto simp: list_all_iff ascii_lower_ascii)
    then show ?thesis by (simp add: list_all_iff)
  qed
qed

text \<open>
  On a string of ASCII bytes, whatever the Unicode tables hold, \<open>Parse\<close> succeeds exactly
  on the strings of the specified shape and returns the input in lower case.
\<close>

lemma Parse_ascii:
  assumes "list_all (\<lambda>c. (of_char c :: nat) < 0x80) s"
  shows "Parse tabs s =
           (if spec_uuid_shape s then Inr (spec_lowercased s) else Inl ErrInvalidUUID)"
proof (cases "length s = 36")
  case False
  then show ?thesis by (simp add: Parse_def spec_uuid_shape_def)
next
  case True
  let ?bs = "map of_char s :: nat list"
  have a: "list_all (\<lambda>b. b < 0x80) (map ascii_lower ?bs)"
    using assms by (auto simp: list_all_iff ascii_lower_ascii)
  have "parse_loop tabs (range_string 0 (map of_char (strings_ToLower tabs s)))
        = parse_loop tabs (zip [0 ..< 0 + length (map ascii_lower ?bs)] (map ascii_lower ?bs))"
    by (simp only: ToLower_ascii(2) [OF assms] range_string_ascii [OF a])
  also have "\<dots> = (\<forall>j < length s.
        if j = 8 \<or> j = 13 \<or> j = 18 \<or> j = 23 then ascii_lower (of_char (s ! j)) = 0x2D
        else isHex tabs (ascii_lower (of_char (s ! j))))"
    by (simp only: parse_loop_zip) (simp add: rune_ok_def)
  also have "\<dots> = (\<forall>j < length s.
        if j = 8 \<or> j = 13 \<or> j = 18 \<or> j = 23 then s ! j = CHR ''-''
        else hex_digit (s ! j))"
  proof (intro all_cong1 imp_cong refl)
    fix j assume "j < length s"
    with assms have "(of_char (s ! j) :: nat) < 0x80"
      by (simp add: list_all_length)
    then show "(if j = 8 \<or> j = 13 \<or> j = 18 \<or> j = 23
                then ascii_lower (of_char (s ! j)) = 0x2D
                else isHex tabs (ascii_lower (of_char (s ! j))))
             = (if j = 8 \<or> j = 13 \<or> j = 18 \<or> j = 23 then s ! j = CHR ''-''
                else hex_digit (s ! j))"
      by (simp add: dash_ascii of_char_eq_dash isHex_ascii hex_digit_def)
  qed
  finally have "parse_loop tabs (range_string 0 (map of_char (strings_ToLower tabs s)))
        = spec_uuid_shape s"
    using True by (simp add: spec_uuid_shape_def)
  then show ?thesis
    using True by (simp add: Parse_def Let_def ToLower_ascii(1) [OF assms])
qed

lemma of_char_lowercased:
  "(of_char c :: nat) < 0x80 \<Longrightarrow>
   (of_char (char_of (ascii_lower (of_char c))) :: nat) = ascii_lower (of_char c)"
  using ascii_lower_ascii [of "of_char c"] by simp

lemma spec_lowercased_idem:
  assumes "list_all (\<lambda>c. (of_char c :: nat) < 0x80) s"
  shows "spec_lowercased (spec_lowercased s) = spec_lowercased s"
proof -
  have "char_of (ascii_lower (of_char (char_of (ascii_lower (of_char c)) )))
        = char_of (ascii_lower (of_char c))" if "c \<in> set s" for c
  proof -
    from that assms have "(of_char c :: nat) < 0x80"
      by (simp add: list_all_iff)
    then show ?thesis
      by (simp only: of_char_lowercased ascii_lower_idem)
  qed
  then show ?thesis
    by (simp add: spec_lowercased_def)
qed

lemma hex_digit_lowercased:
  assumes "(of_char c :: nat) < 0x80" "hex_digit c"
  shows "hex_digit (char_of (ascii_lower (of_char c)))"
  using assms(2) unfolding hex_digit_def of_char_lowercased [OF assms(1)]
  by (auto simp: ascii_lower_def)

lemma dash_lowercased: "char_of (ascii_lower (of_char CHR ''-'')) = CHR ''-''"
  by (simp add: ascii_lower_def char_of_eq_iff)

lemma spec_uuid_shape_lowercased:
  assumes "list_all (\<lambda>c. (of_char c :: nat) < 0x80) s" "spec_uuid_shape s"
  shows "spec_uuid_shape (spec_lowercased s)"
proof -
  have len: "length (spec_lowercased s) = length s"
    by (simp add: spec_lowercased_def)
  have each: "(if i = 8 \<or> i = 13 \<or> i = 18 \<or> i = 23 then spec_lowercased s ! i = CHR ''-''
         else hex_digit (spec_lowercased s ! i))" if "i < length s" for i
  proof -
    from that assms(1) have a: "(of_char (s ! i) :: nat) < 0x80"
      by (simp add: list_all_length)
    from that assms(2) have b: "if i = 8 \<or> i = 13 \<or> i = 18 \<or> i = 23 then s ! i = CHR ''-''
         else hex_digit (s ! i)"
      by (simp add: spec_uuid_shape_def)
    have c: "spec_lowercased s ! i = char_of (ascii_lower (of_char (s ! i)))"
      using that by (simp add: spec_lowercased_def)
    show ?thesis
    proof (cases "i = 8 \<or> i = 13 \<or> i = 18 \<or> i = 23")
      case True
      with b have "s ! i = CHR ''-''" by simp
      with True c show ?thesis by (simp only: dash_lowercased if_True)
    next
      case False
      with b have "hex_digit (s ! i)" by simp
      with a have "hex_digit (char_of (ascii_lower (of_char (s ! i))))"
        by (rule hex_digit_lowercased)
      with False c show ?thesis by simp
    qed
  qed
  from assms(2) have "length s = 36"
    by (simp add: spec_uuid_shape_def)
  with each show ?thesis
    unfolding spec_uuid_shape_def len by blast
qed

text \<open>
  An identifier parsed from a string of ASCII bytes parses again to itself.
\<close>

lemma Parse_ascii_roundtrip:
  assumes "list_all (\<lambda>c. (of_char c :: nat) < 0x80) s" and "Parse tabs s = Inr u"
  shows "u = spec_lowercased s \<and> Parse tabs (UUID_String u) = Inr u"
proof -
  from assms Parse_ascii [OF assms(1), of tabs]
  have shape: "spec_uuid_shape s" and u: "u = spec_lowercased s"
    by (auto split: if_splits)
  have a: "list_all (\<lambda>c. (of_char c :: nat) < 0x80) u"
    using ToLower_ascii(1,3) [OF assms(1), of tabs] u by simp
  have "spec_uuid_shape u"
    unfolding u using assms(1) shape by (rule spec_uuid_shape_lowercased)
  moreover have "spec_lowercased u = u"
    unfolding u using assms(1) by (rule spec_lowercased_idem)
  ultimately have "Parse tabs u = Inr u"
    using Parse_ascii [OF a, of tabs] by simp
  with u show ?thesis by (simp add: UUID_String_def)
qed

end
